theory Spec2Isabelle
  imports Main "HOL-Library.Sublist"
begin

section \<open>Strings and objects of the host language\<close>

text \<open>
  A TypeScript string is a sequence of UTF-16 code units; a code unit is modelled by its
  numeric value. \<open>asc\<close> embeds an ASCII literal; the non-ASCII literals of the source are
  written out as their code units.
\<close>

type_synonym jsstring = "int list"

definition asc :: "string \<Rightarrow> jsstring" where
  "asc s = map of_char s"

text \<open>\<open>a || b\<close> on an optional string: \<open>undefined\<close> and the empty string are falsy.\<close>

fun str_or :: "jsstring option \<Rightarrow> jsstring \<Rightarrow> jsstring" where
  "str_or None d = d"
| "str_or (Some s) d = (if s = [] then d else s)"

text \<open>
  An object with string keys is an association list in insertion order; assigning to an
  existing key keeps its place. (Keys that look like array indices are enumerated first by
  the runtime; the model mapping does not depend on the enumeration order.)
\<close>

fun obj_set :: "('k \<times> 'v) list \<Rightarrow> 'k \<Rightarrow> 'v \<Rightarrow> ('k \<times> 'v) list" where
  "obj_set [] k v = [(k, v)]"
| "obj_set ((k', v') # kvs) k v =
     (if k' = k then (k, v) # kvs else (k', v') # obj_set kvs k v)"

text \<open>An object literal, and the spread of \<open>src\<close> into \<open>dst\<close>: entries are assigned in order.\<close>

definition obj_assign :: "('k \<times> 'v) list \<Rightarrow> ('k \<times> 'v) list \<Rightarrow> ('k \<times> 'v) list" where
  "obj_assign dst src = foldl (\<lambda>ob (k, v). obj_set ob k v) dst src"

text \<open>
  Reading \<open>obj[key]\<close> on a plain object: an own property, or a property inherited from
  \<open>Object.prototype\<close> (a function, hence truthy), or \<open>undefined\<close>. Deno removes
  \<open>__proto__\<close> from \<open>Object.prototype\<close>, so that name is an ordinary key.
\<close>

datatype 'v js_prop = Own 'v | Inherited | Undefined

definition Object_prototype_names :: "jsstring list" where
  "Object_prototype_names =
     [asc ''constructor'', asc ''hasOwnProperty'', asc ''isPrototypeOf'',
      asc ''propertyIsEnumerable'', asc ''toLocaleString'', asc ''toString'', asc ''valueOf'',
      asc ''__defineGetter__'', asc ''__defineSetter__'', asc ''__lookupGetter__'',
      asc ''__lookupSetter__'']"

definition obj_get :: "(jsstring \<times> 'v) list \<Rightarrow> jsstring \<Rightarrow> 'v js_prop" where
  "obj_get ob k =
     (case map_of ob k of
        Some v \<Rightarrow> Own v
      | None \<Rightarrow> if k \<in> set Object_prototype_names then Inherited else Undefined)"

section \<open>Configuration\<close>

text \<open>
  The values of \<open>config.ts\<close> that the modelled functions read. The file is not part of the
  sources at hand, so the configuration is a parameter of every function that reads it.
\<close>

record config =
  PRIMARY_MODEL :: jsstring
  THINKING_MODEL :: jsstring
  SEARCH_MODEL :: jsstring
  AIR_MODEL :: jsstring
  PRIMARY_MODEL_NEW :: jsstring
  THINKING_MODEL_NEW :: jsstring
  SEARCH_MODEL_NEW :: jsstring
  TOOL_SUPPORT :: bool
  SCAN_LIMIT :: int

section \<open>Model mapping (model\_mapper.ts)\<close>

record ModelFeatures =
  enable_thinking :: "bool option"
  web_search :: "bool option"
  auto_web_search :: "bool option"

record ModelMapping =
  displayName :: jsstring
  upstreamModelId :: jsstring
  upstreamModelName :: jsstring
  features :: ModelFeatures
  mcpServers :: "jsstring list option"
  ownedBy :: "jsstring option"
  isBuiltin :: bool
  description :: "jsstring option"

text \<open>\<open>Partial<ModelMapping>\<close>, the argument of \<open>addDynamicMapping\<close>.\<close>

record PartialMapping =
  p_displayName :: "jsstring option"
  p_upstreamModelId :: "jsstring option"
  p_upstreamModelName :: "jsstring option"
  p_features :: "ModelFeatures option"
  p_mcpServers :: "jsstring list option"
  p_ownedBy :: "jsstring option"
  p_description :: "jsstring option"

text \<open>\<open>ZAIModel\<close> (model\_fetcher.ts); \<open>created\<close> and \<open>info\<close> are not read by the mapper.\<close>

record ZAIModel =
  id' :: jsstring
  zai_name :: "jsstring option"
  display_name :: "jsstring option"
  owned_by :: "jsstring option"

definition no_features :: ModelFeatures where
  "no_features = \<lparr>enable_thinking = None, web_search = None, auto_web_search = None\<rparr>"

definition z_ai :: jsstring where
  "z_ai = asc ''z.ai''"

definition builtin_entries :: "config \<Rightarrow> (jsstring \<times> ModelMapping) list" where
  "builtin_entries cfg =
     [(PRIMARY_MODEL cfg,
       \<lparr>displayName = PRIMARY_MODEL cfg, upstreamModelId = asc ''0727-360B-API'',
        upstreamModelName = asc ''GLM-4.5'', features = no_features,
        mcpServers = None, ownedBy = Some z_ai, isBuiltin = True,
        description = Some (asc ''GLM-4.5 '' @ [22522, 30784, 27169, 22411])\<rparr>),
      (THINKING_MODEL cfg,
       \<lparr>displayName = THINKING_MODEL cfg, upstreamModelId = asc ''0727-360B-API'',
        upstreamModelName = asc ''GLM-4.5-Thinking'',
        features = no_features\<lparr>enable_thinking := Some True\<rparr>,
        mcpServers = None, ownedBy = Some z_ai, isBuiltin = True,
        description = Some (asc ''GLM-4.5 '' @ [24605, 32500, 38142, 27169, 22411])\<rparr>),
      (SEARCH_MODEL cfg,
       \<lparr>displayName = SEARCH_MODEL cfg, upstreamModelId = asc ''0727-360B-API'',
        upstreamModelName = asc ''GLM-4.5-Search'',
        features = no_features\<lparr>web_search := Some True, auto_web_search := Some True\<rparr>,
        mcpServers = Some [asc ''deep-web-search''], ownedBy = Some z_ai, isBuiltin = True,
        description = Some (asc ''GLM-4.5 '' @ [25628, 32034, 22686, 24378, 27169, 22411])\<rparr>),
      (AIR_MODEL cfg,
       \<lparr>displayName = AIR_MODEL cfg, upstreamModelId = asc ''0727-106B-API'',
        upstreamModelName = asc ''GLM-4.5-Air'', features = no_features,
        mcpServers = None, ownedBy = Some z_ai, isBuiltin = True,
        description = Some (asc ''GLM-4.5 '' @ [36731, 37327, 32423, 27169, 22411])\<rparr>),
      (PRIMARY_MODEL_NEW cfg,
       \<lparr>displayName = PRIMARY_MODEL_NEW cfg, upstreamModelId = asc ''GLM-4-6-API-V1'',
        upstreamModelName = asc ''GLM-4.6'', features = no_features,
        mcpServers = None, ownedBy = Some z_ai, isBuiltin = True,
        description = Some (asc ''GLM-4.6 '' @ [22522, 30784, 27169, 22411])\<rparr>),
      (THINKING_MODEL_NEW cfg,
       \<lparr>displayName = THINKING_MODEL_NEW cfg, upstreamModelId = asc ''GLM-4-6-API-V1'',
        upstreamModelName = asc ''GLM-4.6-Thinking'',
        features = no_features\<lparr>enable_thinking := Some True\<rparr>,
        mcpServers = None, ownedBy = Some z_ai, isBuiltin = True,
        description = Some (asc ''GLM-4.6 '' @ [24605, 32500, 38142, 27169, 22411])\<rparr>),
      (SEARCH_MODEL_NEW cfg,
       \<lparr>displayName = SEARCH_MODEL_NEW cfg, upstreamModelId = asc ''GLM-4-6-API-V1'',
        upstreamModelName = asc ''GLM-4.6-Search'',
        features = no_features\<lparr>web_search := Some True, auto_web_search := Some True\<rparr>,
        mcpServers = Some [asc ''deep-web-search''], ownedBy = Some z_ai, isBuiltin = True,
        description = Some (asc ''GLM-4.6 '' @ [25628, 32034, 22686, 24378, 27169, 22411])\<rparr>)]"

text \<open>
  The object literal \<open>BUILTIN_MODEL_MAPPINGS\<close>: its computed keys are assigned in order, so
  two configuration names that coincide leave one entry, holding the later value.
\<close>

definition BUILTIN_MODEL_MAPPINGS :: "config \<Rightarrow> (jsstring \<times> ModelMapping) list" where
  "BUILTIN_MODEL_MAPPINGS cfg = obj_assign [] (builtin_entries cfg)"

record ModelMappingManager =
  dynamicMappings :: "(jsstring \<times> ModelMapping) list"
  lastUpdateTime :: int

definition new_ModelMappingManager :: ModelMappingManager where
  "new_ModelMappingManager = \<lparr>dynamicMappings = [], lastUpdateTime = 0\<rparr>"

definition UPDATE_INTERVAL :: int where
  "UPDATE_INTERVAL = 5 * 60 * 1000"

definition getMappings :: "config \<Rightarrow> ModelMappingManager \<Rightarrow> (jsstring \<times> ModelMapping) list" where
  "getMappings cfg s = obj_assign (obj_assign [] (BUILTIN_MODEL_MAPPINGS cfg)) (dynamicMappings s)"

definition addDynamicMapping ::
  "jsstring \<Rightarrow> PartialMapping \<Rightarrow> ModelMappingManager \<Rightarrow> ModelMappingManager" where
  "addDynamicMapping modelId mapping s =
     (let fullMapping =
        \<lparr>displayName = str_or (p_displayName mapping) modelId,
         upstreamModelId = str_or (p_upstreamModelId mapping) modelId,
         upstreamModelName = str_or (p_upstreamModelName mapping) modelId,
         features = (case p_features mapping of Some f \<Rightarrow> f | None \<Rightarrow> no_features),
         mcpServers = Some (case p_mcpServers mapping of Some ms \<Rightarrow> ms | None \<Rightarrow> []),
         ownedBy = Some (str_or (p_ownedBy mapping) z_ai),
         isBuiltin = False,
         description =
           Some (str_or (p_description mapping) ([21160, 24577, 27169, 22411, 58, 32] @ modelId))\<rparr>
      in s\<lparr>dynamicMappings := obj_set (dynamicMappings s) modelId fullMapping\<rparr>)"

text \<open>The body of the loop over the observed models: the two \<open>continue\<close> guards, then the insertion.\<close>

definition update_step :: "config \<Rightarrow> ModelMappingManager \<Rightarrow> ZAIModel \<Rightarrow> ModelMappingManager" where
  "update_step cfg s model =
     (let modelId = id' model;
          mappedUpstreamIds = map upstreamModelId (map snd (BUILTIN_MODEL_MAPPINGS cfg))
      in if modelId \<in> set mappedUpstreamIds then s
         else if obj_get (BUILTIN_MODEL_MAPPINGS cfg) modelId \<noteq> Undefined then s
         else addDynamicMapping modelId
                \<lparr>p_displayName = Some (str_or (zai_name model) (str_or (display_name model) modelId)),
                 p_upstreamModelId = Some modelId,
                 p_upstreamModelName =
                   Some (str_or (zai_name model) (str_or (display_name model) modelId)),
                 p_features = None,
                 p_mcpServers = None,
                 p_ownedBy = Some (str_or (owned_by model) z_ai),
                 p_description =
                   Some ([90, 46, 65, 73, 27169, 22411, 58, 32] @ str_or (zai_name model) modelId)\<rparr>
                s)"

text \<open>\<open>now\<close> is the value of \<open>Date.now()\<close> at the call, in milliseconds.\<close>

definition updateFromZAIModels ::
  "config \<Rightarrow> int \<Rightarrow> ZAIModel list \<Rightarrow> ModelMappingManager \<Rightarrow> ModelMappingManager" where
  "updateFromZAIModels cfg now zaiModels s =
     (if now - lastUpdateTime s < UPDATE_INTERVAL then s
      else (foldl (update_step cfg) (s\<lparr>dynamicMappings := []\<rparr>) zaiModels)
             \<lparr>lastUpdateTime := now\<rparr>)"

text \<open>
  \<open>allMappings[modelId] || null\<close>: \<open>Undefined\<close> stands for the \<open>null\<close> returned; for a name
  inherited from \<open>Object.prototype\<close> the function found there is returned.
\<close>

definition getMappingByModelId ::
  "config \<Rightarrow> ModelMappingManager \<Rightarrow> jsstring \<Rightarrow> ModelMapping js_prop" where
  "getMappingByModelId cfg s modelId = obj_get (getMappings cfg s) modelId"

definition clearDynamicMappings :: "ModelMappingManager \<Rightarrow> ModelMappingManager" where
  "clearDynamicMappings s = s\<lparr>dynamicMappings := [], lastUpdateTime := 0\<rparr>"

text \<open>A sequence of refresh calls, each with its clock reading and its observed models.\<close>

definition refreshes ::
  "config \<Rightarrow> (int \<times> ZAIModel list) list \<Rightarrow> ModelMappingManager \<Rightarrow> ModelMappingManager" where
  "refreshes cfg calls s = foldl (\<lambda>s' (now, ms). updateFromZAIModels cfg now ms s') s calls"

section \<open>Message preprocessing (tools.ts)\<close>

text \<open>
  White space as \<open>String.prototype.trim\<close> and the regular expression class \<open>\s\<close> see it:
  the WhiteSpace and LineTerminator code points.
\<close>

definition is_js_space :: "int \<Rightarrow> bool" where
  "is_js_space c \<longleftrightarrow>
     c \<in> {9, 10, 11, 12, 13, 32, 160, 5760, 8232, 8233, 8239, 8287, 12288, 65279} \<or>
     (8192 \<le> c \<and> c \<le> 8202)"

definition trim :: "jsstring \<Rightarrow> jsstring" where
  "trim s = rev (dropWhile is_js_space (rev (dropWhile is_js_space s)))"

fun starts_with :: "jsstring \<Rightarrow> jsstring \<Rightarrow> bool" where
  "starts_with s [] = True"
| "starts_with [] (n # ns) = False"
| "starts_with (c # cs) (n # ns) = (c = n \<and> starts_with cs ns)"

text \<open>\<open>s.includes(needle)\<close>.\<close>

fun js_includes :: "jsstring \<Rightarrow> jsstring \<Rightarrow> bool" where
  "js_includes [] needle = (needle = [])"
| "js_includes (c # cs) needle = (starts_with (c # cs) needle \<or> js_includes cs needle)"

text \<open>\<open>parts.join(sep)\<close> on an array of strings.\<close>

fun join :: "jsstring \<Rightarrow> jsstring list \<Rightarrow> jsstring" where
  "join sep [] = []"
| "join sep [x] = x"
| "join sep (x # y # ys) = x @ sep @ join sep (y # ys)"

text \<open>
  Message content is a string, or an array of parts, or something else (absent, \<open>null\<close>, a
  number, a plain object). A part is an object of type \<open>text\<close> with an optional string
  \<open>text\<close>, or a bare string, or anything else.
\<close>

datatype content_part = TextPart "jsstring option" | StringPart jsstring | OtherPart

datatype content = CString jsstring | CParts "content_part list" | COther

text \<open>
  \<open>Message\<close> with the \<open>name\<close> of \<open>ToolMessage\<close>. Further properties of a message are
  copied by the spreads and never read; they are left out.
\<close>

record Message =
  role :: jsstring
  content :: content
  msg_name :: "jsstring option"
  reasoning_content :: "jsstring option"

record ParamDetails =
  pd_type :: "jsstring option"
  pd_description :: "jsstring option"

record ToolParameters =
  tp_type :: jsstring
  properties :: "(jsstring \<times> ParamDetails) list option"
  required :: "jsstring list option"

record ToolFunction =
  fn_name :: jsstring
  fn_description :: "jsstring option"
  parameters :: "ToolParameters option"

record Tool =
  tool_type :: jsstring
  tool_function :: "ToolFunction option"

text \<open>
  \<open>toolChoice\<close> is untyped in the source: absent, a string, or an object of which \<open>type\<close>
  and \<open>function.name\<close> are read; \<open>TCOther\<close> is any other value.
\<close>

datatype tool_choice =
  TCUndefined | TCString jsstring | TCObject "jsstring option" "jsstring option" | TCOther

fun part_text :: "content_part \<Rightarrow> jsstring list" where
  "part_text (TextPart t) = [str_or t []]"
| "part_text (StringPart s) = [s]"
| "part_text OtherPart = []"

text \<open>\<open>contentToString(content || "")\<close>; the guard \<open>|| ""\<close> changes no result.\<close>

fun contentToString :: "content \<Rightarrow> jsstring" where
  "contentToString (CString s) = s"
| "contentToString (CParts ps) = join (asc '' '') (concat (map part_text ps))"
| "contentToString COther = []"

definition param_line :: "jsstring list \<Rightarrow> jsstring \<times> ParamDetails \<Rightarrow> jsstring" where
  "param_line requiredParameters entry =
     (case entry of (paramName, paramDetails) \<Rightarrow>
        let paramType = str_or (pd_type paramDetails) (asc ''unknown'');
            paramDesc = str_or (pd_description paramDetails) [];
            requirementFlag =
              (if paramName \<in> set requiredParameters then asc ''**Required**''
               else asc ''*Optional*'')
        in asc ''- `'' @ paramName @ asc ''` ('' @ paramType @ asc '') - '' @ requirementFlag
             @ asc '': '' @ paramDesc)"

definition tool_definition :: "Tool \<Rightarrow> jsstring list" where
  "tool_definition tool =
     (if tool_type tool \<noteq> asc ''function'' then []
      else case tool_function tool of
        None \<Rightarrow> []
      | Some functionSpec \<Rightarrow>
          let functionName = (if fn_name functionSpec = [] then asc ''unknown''
                              else fn_name functionSpec);
              functionDescription = str_or (fn_description functionSpec) [];
              toolInfo = [asc ''## '' @ functionName, asc ''**Purpose**: '' @ functionDescription];
              params =
                (case parameters functionSpec of
                   None \<Rightarrow> []
                 | Some ps \<Rightarrow>
                     (case properties ps of
                        None \<Rightarrow> []
                      | Some parameterProperties \<Rightarrow>
                          if parameterProperties = [] then []
                          else asc ''**Parameters**:''
                               # map (param_line (case required ps of Some r \<Rightarrow> r | None \<Rightarrow> []))
                                   parameterProperties))
          in [join (asc ''\<newline>'') (toolInfo @ params)])"

definition usage_instructions :: jsstring where
  "usage_instructions =
     asc ''\<newline>\<newline># USAGE INSTRUCTIONS\<newline>'' @
     asc ''When you need to execute a function, respond ONLY with a JSON object containing tool_calls:\<newline>'' @
     asc ''```json\<newline>'' @
     asc ''{\<newline>'' @
     asc ''  \"tool_calls\": [\<newline>'' @
     asc ''    {\<newline>'' @
     asc ''      \"id\": \"call_xxx\",\<newline>'' @
     asc ''      \"type\": \"function\",\<newline>'' @
     asc ''      \"function\": {\<newline>'' @
     asc ''        \"name\": \"function_name\",\<newline>'' @
     asc ''        \"arguments\": \"{'' @ [92] @ asc ''\"param1'' @ [92] @ asc ''\": '' @ [92]
       @ asc ''\"value1'' @ [92] @ asc ''\"}\"\<newline>'' @
     asc ''      }\<newline>'' @
     asc ''    }\<newline>'' @
     asc ''  ]\<newline>'' @
     asc ''}\<newline>'' @
     asc ''```\<newline>'' @
     asc ''Important: No explanatory text before or after the JSON. '' @
     asc ''The '' @ [39] @ asc ''arguments'' @ [39] @ asc '' field must be a JSON string, not an object.\<newline>''"

definition generateToolPrompt :: "Tool list \<Rightarrow> jsstring" where
  "generateToolPrompt tools =
     (if tools = [] then []
      else let toolDefinitions = concat (map tool_definition tools)
           in if toolDefinitions = [] then []
              else asc ''\<newline>\<newline># AVAILABLE FUNCTIONS\<newline>''
                   @ join (asc ''\<newline>\<newline>---\<newline>'') toolDefinitions
                   @ usage_instructions)"

definition system_role :: jsstring where "system_role = asc ''system''"
definition user_role :: jsstring where "user_role = asc ''user''"
definition assistant_role :: jsstring where "assistant_role = asc ''assistant''"

text \<open>The default persona of a synthesized system message, and the two tool-choice hints.\<close>

definition tools_persona :: jsstring where
  "tools_persona = [20320, 26159, 19968, 20010, 26377, 29992, 30340, 21161, 25163, 12290]"

definition use_tools_hint :: jsstring where
  "use_tools_hint =
     [10, 10, 35831, 26681, 25454, 38656, 35201, 20351, 29992, 25552, 20379, 30340, 24037,
      20855, 20989, 25968, 12290]"

definition use_function_hint :: "jsstring \<Rightarrow> jsstring" where
  "use_function_hint fname =
     [10, 10, 35831, 20351, 29992, 32] @ fname @
     [32, 20989, 25968, 26469, 22788, 29702, 36825, 20010, 35831, 27714, 12290]"

text \<open>Appending a hint to the last message when that message is a user message.\<close>

definition hint_last_user :: "jsstring \<Rightarrow> Message list \<Rightarrow> Message list" where
  "hint_last_user hint processed =
     (if processed \<noteq> [] \<and> role (last processed) = user_role
      then butlast processed
           @ [(last processed)\<lparr>content := CString (contentToString (content (last processed)) @ hint)\<rparr>]
      else processed)"

text \<open>The first half of \<open>processMessagesWithTools\<close>: the injection of the tool prompt.\<close>

definition inject_tools :: "config \<Rightarrow> Message list \<Rightarrow> Tool list option \<Rightarrow> tool_choice \<Rightarrow> Message list" where
  "inject_tools cfg messages tools toolChoice =
     (case tools of
        Some ts \<Rightarrow>
          if TOOL_SUPPORT cfg \<and> toolChoice \<noteq> TCString (asc ''none'') then
            let toolsPrompt = generateToolPrompt ts;
                hasSystem = (\<exists>m \<in> set messages. role m = system_role);
                processed =
                  (if hasSystem
                   then map (\<lambda>m. if role m = system_role
                                  then m\<lparr>content := CString (contentToString (content m) @ toolsPrompt)\<rparr>
                                  else m) messages
                   else \<lparr>role = system_role, content = CString (tools_persona @ toolsPrompt),
                         msg_name = None, reasoning_content = None\<rparr> # messages)
            in (case toolChoice of
                  TCString c \<Rightarrow>
                    if c = asc ''required'' \<or> c = asc ''auto''
                    then hint_last_user use_tools_hint processed else processed
                | TCObject ty (Some fname) \<Rightarrow>
                    if ty = Some (asc ''function'') \<and> fname \<noteq> []
                    then hint_last_user (use_function_hint fname) processed else processed
                | _ \<Rightarrow> processed)
          else messages
      | None \<Rightarrow> messages)"

text \<open>
  The second half: the loop over \<open>processed\<close> that rewrites tool and function messages and
  turns every other content into a string.
\<close>

definition tool_result_block :: "jsstring \<Rightarrow> jsstring \<Rightarrow> jsstring" where
  "tool_result_block toolName toolContent =
     [24037, 20855, 32] @ toolName @ [32, 36820, 22238, 32467, 26524, 58] @ asc ''\<newline>```json\<newline>''
     @ toolContent @ asc ''\<newline>```''"

definition tool_done_placeholder :: "jsstring \<Rightarrow> jsstring" where
  "tool_done_placeholder toolName = [24037, 20855, 32] @ toolName @ [32, 25191, 34892, 23436, 25104]"

definition normalize_message :: "Message \<Rightarrow> Message" where
  "normalize_message m =
     (if role m = asc ''tool'' \<or> role m = asc ''function'' then
        let toolName = str_or (msg_name m) (asc ''unknown'');
            toolContent = contentToString (content m);
            content0 = tool_result_block toolName toolContent;
            content1 = (if trim content0 = [] then tool_done_placeholder toolName else content0)
        in \<lparr>role = assistant_role, content = CString content1, msg_name = None,
            reasoning_content = None\<rparr>
      else m\<lparr>content := CString (contentToString (content m))\<rparr>)"

definition processMessagesWithTools ::
  "config \<Rightarrow> Message list \<Rightarrow> Tool list option \<Rightarrow> tool_choice \<Rightarrow> Message list" where
  "processMessagesWithTools cfg messages tools toolChoice =
     map normalize_message (inject_tools cfg messages tools toolChoice)"

definition thinking_marker :: jsstring where
  "thinking_marker = asc ''<thinking>''"

definition thinkingInstruction :: jsstring where
  "thinkingInstruction =
     [10, 10, 22312, 22238, 31572, 20043, 21069, 65292, 35831, 22312, 32] @ thinking_marker @
     [32, 26631, 31614, 20013, 36827, 34892, 24605, 32771, 20998, 26512, 65306, 10, 45, 32,
      20180, 32454, 20998, 26512, 29992, 25143, 30340, 38382, 39064, 21644, 38656, 27714, 10,
      45, 32, 32771, 34385, 21487, 33021, 30340, 35299, 20915, 26041, 26696, 21644, 26041,
      27861, 10, 45, 32, 35780, 20272, 31572, 26696, 30340, 20934, 30830, 24615, 21644, 23436,
      25972, 24615, 10, 45, 32, 32452, 32455, 22238, 31572, 30340, 32467, 26500, 21644, 36923,
      36753, 10, 10, 28982, 21518, 32473, 20986, 20320, 30340, 26368, 32456, 22238, 31572,
      12290, 35831, 30830, 20445, 20320, 30340, 24605, 32771, 36807, 31243, 28165, 26224,
      19988, 26377, 26465, 29702, 12290]"

definition thinking_persona :: jsstring where
  "thinking_persona =
     [20320, 26159, 19968, 20010, 26377, 29992, 30340, 65, 73, 21161, 25163, 12290]"

text \<open>
  The loop of \<open>addThinkingPromptToMessages\<close>: it stops at the first system message;
  \<open>None\<close> is the loop ending with \<open>hasSystemMessage\<close> still false.
\<close>

fun thinking_loop :: "Message list \<Rightarrow> Message list option" where
  "thinking_loop [] = None"
| "thinking_loop (m # ms) =
     (if role m = system_role then
        let existingContent = contentToString (content m)
        in Some ((if \<not> js_includes existingContent thinking_marker
                  then m\<lparr>content := CString (existingContent @ thinkingInstruction)\<rparr>
                  else m) # ms)
      else map_option ((#) m) (thinking_loop ms))"

definition addThinkingPromptToMessages :: "Message list \<Rightarrow> Message list" where
  "addThinkingPromptToMessages messages =
     (case thinking_loop messages of
        Some processedMessages \<Rightarrow> processedMessages
      | None \<Rightarrow>
          \<lparr>role = system_role, content = CString (thinking_persona @ thinkingInstruction),
           msg_name = None, reasoning_content = None\<rparr> # messages)"




section \<open>The chat completion handler (openai.ts)\<close>








section \<open>JSON values and the runtime\<close>

text \<open>
  A parsed JSON value. A number is represented by the literal it was read from; an
  object keeps its properties in insertion order.
\<close>

datatype json =
  JNull | JBool bool | JNumber jsstring | JString jsstring | JArray "json list"
  | JObject "(jsstring \<times> json) list"

text \<open>
  A reference implementation of \<open>JSON.parse\<close> after the JSON grammar, used where a
  property is evaluated on a concrete text.
\<close>

definition is_json_space :: "int \<Rightarrow> bool" where
  "is_json_space c \<longleftrightarrow> c = 32 \<or> c = 9 \<or> c = 10 \<or> c = 13"

definition is_digit :: "int \<Rightarrow> bool" where
  "is_digit c \<longleftrightarrow> 48 \<le> c \<and> c \<le> 57"

definition hex_value :: "int \<Rightarrow> int option" where
  "hex_value c =
     (if 48 \<le> c \<and> c \<le> 57 then Some (c - 48)
      else if 97 \<le> c \<and> c \<le> 102 then Some (c - 87)
      else if 65 \<le> c \<and> c \<le> 70 then Some (c - 55)
      else None)"

definition hex4 :: "int \<Rightarrow> int \<Rightarrow> int \<Rightarrow> int \<Rightarrow> int option" where
  "hex4 a b c d =
     (case (hex_value a, hex_value b, hex_value c, hex_value d) of
        (Some x, Some y, Some z, Some w) \<Rightarrow> Some (((x * 16 + y) * 16 + z) * 16 + w)
      | _ \<Rightarrow> None)"

text \<open>The characters of a string literal after its opening quote, up to the closing one.\<close>

fun parse_string_body :: "jsstring \<Rightarrow> (jsstring \<times> jsstring) option" where
  "parse_string_body [] = None"
| "parse_string_body (c # cs) =
     (if c = 34 then Some ([], cs)
      else if c < 32 then None
      else if c = 92 then
        (case cs of
           [] \<Rightarrow> None
         | e # rest \<Rightarrow>
             if e = 117 then
               (case rest of
                  h1 # h2 # h3 # h4 # rest' \<Rightarrow>
                    (case hex4 h1 h2 h3 h4 of
                       None \<Rightarrow> None
                     | Some u \<Rightarrow> map_option (\<lambda>(s, r). (u # s, r)) (parse_string_body rest'))
                | _ \<Rightarrow> None)
             else
               (case map_of [(34, 34), (92, 92), (47, 47), (98, 8), (102, 12), (110, 10),
                             (114, 13), (116, 9)] e of
                  None \<Rightarrow> None
                | Some u \<Rightarrow> map_option (\<lambda>(s, r). (u # s, r)) (parse_string_body rest)))
      else map_option (\<lambda>(s, r). (c # s, r)) (parse_string_body cs))"

text \<open>
  A number literal: \<open>-? (0 | [1-9][0-9]*) (. [0-9]+)? ([eE] [+-]? [0-9]+)?\<close>. The value is
  kept as the literal read.
\<close>

definition parse_number :: "jsstring \<Rightarrow> (jsstring \<times> jsstring) option" where
  "parse_number s =
     (let sign = (if starts_with s [45] then [45] else []);
          s1 = drop (length sign) s;
          ds = takeWhile is_digit s1;
          s2 = drop (length ds) s1
      in if ds = [] \<or> (hd ds = 48 \<and> length ds > 1) then None
         else
           let frac_ds = (if starts_with s2 [46] then takeWhile is_digit (tl s2) else []);
               frac = (if starts_with s2 [46] then 46 # frac_ds else []);
               s3 = drop (length frac) s2
           in if starts_with s2 [46] \<and> frac_ds = [] then None
              else
                let has_e = (starts_with s3 [101] \<or> starts_with s3 [69]);
                    s4 = (if has_e then tl s3 else s3);
                    esign = (if has_e \<and> (starts_with s4 [43] \<or> starts_with s4 [45])
                             then [hd s4] else []);
                    eds = (if has_e then takeWhile is_digit (drop (length esign) s4) else []);
                    ex = (if has_e then hd s3 # esign @ eds else [])
                in if has_e \<and> eds = [] then None
                   else Some (sign @ ds @ frac @ ex, drop (length ex) s3))"

text \<open>
  Recursive descent over values, array elements and object members. The first argument
  bounds the number of nested calls; \<open>json_parse\<close> below starts with a bound that the
  length of the text cannot exhaust, since a call is made only after a character was read
  or a call before it returned.
\<close>

fun parse_value :: "nat \<Rightarrow> jsstring \<Rightarrow> (json \<times> jsstring) option"
  and parse_elements :: "nat \<Rightarrow> json list \<Rightarrow> jsstring \<Rightarrow> (json \<times> jsstring) option"
  and parse_members :: "nat \<Rightarrow> (jsstring \<times> json) list \<Rightarrow> jsstring \<Rightarrow> (json \<times> jsstring) option"
where
  "parse_value 0 s = None"
| "parse_value (Suc n) s =
     (case dropWhile is_json_space s of
        [] \<Rightarrow> None
      | c # cs \<Rightarrow>
          if c = 123 then
            (case dropWhile is_json_space cs of
               [] \<Rightarrow> None
             | d # ds \<Rightarrow> if d = 125 then Some (JObject [], ds) else parse_members n [] cs)
          else if c = 91 then
            (case dropWhile is_json_space cs of
               [] \<Rightarrow> None
             | d # ds \<Rightarrow> if d = 93 then Some (JArray [], ds) else parse_elements n [] cs)
          else if c = 34 then map_option (\<lambda>(str, r). (JString str, r)) (parse_string_body cs)
          else if starts_with (c # cs) (asc ''true'') then Some (JBool True, drop 4 (c # cs))
          else if starts_with (c # cs) (asc ''false'') then Some (JBool False, drop 5 (c # cs))
          else if starts_with (c # cs) (asc ''null'') then Some (JNull, drop 4 (c # cs))
          else map_option (\<lambda>(lit, r). (JNumber lit, r)) (parse_number (c # cs)))"
| "parse_elements 0 acc s = None"
| "parse_elements (Suc n) acc s =
     (case parse_value n s of
        None \<Rightarrow> None
      | Some (v, r) \<Rightarrow>
          (case dropWhile is_json_space r of
             [] \<Rightarrow> None
           | d # ds \<Rightarrow>
               if d = 93 then Some (JArray (acc @ [v]), ds)
               else if d = 44 then parse_elements n (acc @ [v]) ds
               else None))"
| "parse_members 0 acc s = None"
| "parse_members (Suc n) acc s =
     (case dropWhile is_json_space s of
        [] \<Rightarrow> None
      | q # qs \<Rightarrow>
          if q \<noteq> 34 then None
          else
            (case parse_string_body qs of
               None \<Rightarrow> None
             | Some (k, r) \<Rightarrow>
                 (case dropWhile is_json_space r of
                    [] \<Rightarrow> None
                  | col # r' \<Rightarrow>
                      if col \<noteq> 58 then None
                      else
                        (case parse_value n r' of
                           None \<Rightarrow> None
                         | Some (v, r'') \<Rightarrow>
                             (case dropWhile is_json_space r'' of
                                [] \<Rightarrow> None
                              | d # ds \<Rightarrow>
                                  if d = 125 then Some (JObject (obj_set acc k v), ds)
                                  else if d = 44 then parse_members n (obj_set acc k v) ds
                                  else None)))))"

definition json_parse :: "jsstring \<Rightarrow> json option" where
  "json_parse s =
     (case parse_value (2 * length s + 2) s of
        None \<Rightarrow> None
      | Some (v, r) \<Rightarrow> if dropWhile is_json_space r = [] then Some v else None)"

text \<open>
  \<open>JSON.stringify\<close> of a parsed value. A number is printed as the literal it was read
  from, which is what the runtime prints for an integer literal below \<open>2^53\<close> without
  sign, fraction or exponent; properties are printed in insertion order.
\<close>

definition hex_digit :: "int \<Rightarrow> int" where
  "hex_digit d = (if d < 10 then 48 + d else 87 + d)"

definition unicode_escape :: "int \<Rightarrow> jsstring" where
  "unicode_escape c =
     [92, 117, hex_digit (c div 4096 mod 16), hex_digit (c div 256 mod 16),
      hex_digit (c div 16 mod 16), hex_digit (c mod 16)]"

fun quote_chars :: "jsstring \<Rightarrow> jsstring" where
  "quote_chars [] = []"
| "quote_chars (c # cs) =
     (if c = 34 then [92, 34] @ quote_chars cs
      else if c = 92 then [92, 92] @ quote_chars cs
      else if c = 8 then [92, 98] @ quote_chars cs
      else if c = 12 then [92, 102] @ quote_chars cs
      else if c = 10 then [92, 110] @ quote_chars cs
      else if c = 13 then [92, 114] @ quote_chars cs
      else if c = 9 then [92, 116] @ quote_chars cs
      else if c < 32 then unicode_escape c @ quote_chars cs
      else if 55296 \<le> c \<and> c \<le> 56319 then
        (case cs of
           d # ds \<Rightarrow>
             if 56320 \<le> d \<and> d \<le> 57343 then c # d # quote_chars ds
             else unicode_escape c @ quote_chars cs
         | [] \<Rightarrow> unicode_escape c)
      else if 56320 \<le> c \<and> c \<le> 57343 then unicode_escape c @ quote_chars cs
      else c # quote_chars cs)"

definition quote :: "jsstring \<Rightarrow> jsstring" where
  "quote s = [34] @ quote_chars s @ [34]"

fun json_stringify :: "json \<Rightarrow> jsstring"
  and stringify_elements :: "json list \<Rightarrow> jsstring"
  and stringify_members :: "(jsstring \<times> json) list \<Rightarrow> jsstring"
where
  "json_stringify JNull = asc ''null''"
| "json_stringify (JBool b) = (if b then asc ''true'' else asc ''false'')"
| "json_stringify (JNumber lit) = lit"
| "json_stringify (JString s) = quote s"
| "json_stringify (JArray vs) = [91] @ stringify_elements vs @ [93]"
| "json_stringify (JObject kvs) = [123] @ stringify_members kvs @ [125]"
| "stringify_elements [] = []"
| "stringify_elements [v] = json_stringify v"
| "stringify_elements (v # w # vs) = json_stringify v @ [44] @ stringify_elements (w # vs)"
| "stringify_members [] = []"
| "stringify_members [(k, v)] = quote k @ [58] @ json_stringify v"
| "stringify_members ((k, v) # kv # kvs) =
     quote k @ [58] @ json_stringify v @ [44] @ stringify_members (kv # kvs)"

text \<open>
  The functions of the runtime that the extraction calls: \<open>JSON.parse\<close> (\<open>None\<close> is the
  \<open>SyntaxError\<close>), \<open>JSON.stringify\<close>, and the conversion of a number to a string.
\<close>

record runtime =
  JSON_parse :: "jsstring \<Rightarrow> json option"
  JSON_stringify :: "json \<Rightarrow> jsstring"
  Number_toString :: "int \<Rightarrow> jsstring"

function nat_digits :: "int \<Rightarrow> jsstring" where
  "nat_digits n = (if n < 10 then [48 + n] else nat_digits (n div 10) @ [48 + n mod 10])"
  by pat_completeness auto
termination
  by (relation "measure nat") auto

declare nat_digits.simps [simp del]

definition int_string :: "int \<Rightarrow> jsstring" where
  "int_string i = (if i < 0 then [45] else []) @ nat_digits \<bar>i\<bar>"

definition deno :: runtime where
  "deno = \<lparr>JSON_parse = json_parse, JSON_stringify = json_stringify, Number_toString = int_string\<rparr>"

datatype error = TypeError

text \<open>
  Truthiness of a value; \<open>None\<close> is \<open>undefined\<close>. A number is falsy when it is zero, that
  is, when its literal has no digit other than \<open>0\<close> before the exponent (a literal that
  only rounds to zero is taken as non-zero).
\<close>

definition number_is_zero :: "jsstring \<Rightarrow> bool" where
  "number_is_zero lit = (\<forall>c \<in> set (takeWhile (\<lambda>c. c \<noteq> 101 \<and> c \<noteq> 69) lit). \<not> (49 \<le> c \<and> c \<le> 57))"

fun truthy :: "json option \<Rightarrow> bool" where
  "truthy None = False"
| "truthy (Some JNull) = False"
| "truthy (Some (JBool b)) = b"
| "truthy (Some (JNumber lit)) = (\<not> number_is_zero lit)"
| "truthy (Some (JString s)) = (s \<noteq> [])"
| "truthy (Some (JArray vs)) = True"
| "truthy (Some (JObject kvs)) = True"

text \<open>
  Reading one of the properties \<open>tool_calls\<close>, \<open>function\<close>, \<open>arguments\<close>, which no
  prototype defines: \<open>null\<close> throws, an object answers with its own property, any other
  value with \<open>undefined\<close>.
\<close>

fun get_prop :: "json \<Rightarrow> jsstring \<Rightarrow> error + json option" where
  "get_prop JNull k = Inl TypeError"
| "get_prop (JObject kvs) k = Inr (map_of kvs k)"
| "get_prop v k = Inr None"

fun is_string :: "json \<Rightarrow> bool" where
  "is_string (JString s) = True"
| "is_string v = False"

text \<open>\<open>typeof v === "object"\<close> for a truthy value.\<close>

fun is_object :: "json \<Rightarrow> bool" where
  "is_object (JObject kvs) = True"
| "is_object (JArray vs) = True"
| "is_object v = False"

text \<open>The assignment \<open>func.arguments = value\<close> seen from the tool call that holds \<open>func\<close>.\<close>

fun set_arguments :: "json \<Rightarrow> json \<Rightarrow> json" where
  "set_arguments (JObject kvs) value =
     (case map_of kvs (asc ''function'') of
        Some (JObject fkvs) \<Rightarrow>
          JObject (obj_set kvs (asc ''function'') (JObject (obj_set fkvs (asc ''arguments'') value)))
      | _ \<Rightarrow> JObject kvs)"
| "set_arguments tc value = tc"

text \<open>The body of the loop \<open>for (const tc of toolCalls)\<close>.\<close>

definition normalize_call :: "runtime \<Rightarrow> json \<Rightarrow> error + json" where
  "normalize_call rt tc =
     (case get_prop tc (asc ''function'') of
        Inl e \<Rightarrow> Inl e
      | Inr None \<Rightarrow> Inr tc
      | Inr (Some func) \<Rightarrow>
          if truthy (Some func) then
            (case get_prop func (asc ''arguments'') of
               Inl e \<Rightarrow> Inl e
             | Inr None \<Rightarrow> Inr tc
             | Inr (Some arguments) \<Rightarrow>
                 if truthy (Some arguments) then
                   if is_object arguments
                   then Inr (set_arguments tc (JString (JSON_stringify rt arguments)))
                   else if \<not> is_string arguments
                   then Inr (set_arguments tc (JString (JSON_stringify rt arguments)))
                   else Inr tc
                 else Inr tc)
          else Inr tc)"

fun normalize_calls :: "runtime \<Rightarrow> json list \<Rightarrow> error + json list" where
  "normalize_calls rt [] = Inr []"
| "normalize_calls rt (tc # tcs) =
     (case normalize_call rt tc of
        Inl e \<Rightarrow> Inl e
      | Inr tc' \<Rightarrow> (case normalize_calls rt tcs of Inl e \<Rightarrow> Inl e | Inr tcs' \<Rightarrow> Inr (tc' # tcs')))"

text \<open>
  The body of the \<open>try\<close> of the first two attempts: \<open>Some\<close> is the array returned, \<open>None\<close>
  is falling through, by the failed test or by an exception that the \<open>catch\<close> swallows.
\<close>

definition try_tool_calls :: "runtime \<Rightarrow> jsstring \<Rightarrow> json list option" where
  "try_tool_calls rt jsonStr =
     (case JSON_parse rt jsonStr of
        None \<Rightarrow> None
      | Some parsedData \<Rightarrow>
          (case get_prop parsedData (asc ''tool_calls'') of
             Inr (Some (JArray toolCalls)) \<Rightarrow>
               (case normalize_calls rt toolCalls of Inl e \<Rightarrow> None | Inr r \<Rightarrow> Some r)
           | _ \<Rightarrow> None))"

section \<open>Extraction of tool calls (tools.ts)\<close>

text \<open>\<open>text.substring(0, n)\<close>.\<close>

fun substring0 :: "int \<Rightarrow> jsstring \<Rightarrow> jsstring" where
  "substring0 n [] = []"
| "substring0 n (c # cs) = (if n \<le> 0 then [] else c # substring0 (n - 1) cs)"

subsection \<open>The two regular expressions\<close>

text \<open>
  \<open>TOOL_CALL_FENCE_PATTERN\<close> is \<open>```json\s*(\{.*?\})\s*```\<close> with the flags \<open>g\<close> and \<open>s\<close>.
  \<open>fence_close\<close> reads the text after the opening brace: the lazy \<open>.*?\<close> stops at the
  first closing brace that white space and the closing fence follow. It returns the
  number of characters before that brace and the number of characters up to the end of
  the match.
\<close>

fun fence_close :: "jsstring \<Rightarrow> (nat \<times> nat) option" where
  "fence_close [] = None"
| "fence_close (c # cs) =
     (if c = 125 \<and> starts_with (dropWhile is_js_space cs) (asc ''```'')
      then Some (0, 1 + length (takeWhile is_js_space cs) + 3)
      else map_option (\<lambda>(k, e). (Suc k, Suc e)) (fence_close cs))"

text \<open>A match at the start of \<open>s\<close>: the first capture group and the length of the match.\<close>

definition fence_match_at :: "jsstring \<Rightarrow> (jsstring \<times> nat) option" where
  "fence_match_at s =
     (if starts_with s (asc ''```json'') then
        let ws = length (takeWhile is_js_space (drop 7 s));
            r = drop (7 + ws) s
        in (case r of
              [] \<Rightarrow> None
            | c # body \<Rightarrow>
                if c = 123 then
                  (case fence_close body of
                     Some (k, e) \<Rightarrow> Some (take (k + 2) r, 7 + ws + 1 + e)
                   | None \<Rightarrow> None)
                else None)
      else None)"

text \<open>
  \<open>matchAll\<close>: the matches from left to right, each search starting where the match
  before ended; of a match only the first group is used. A match is never empty: it
  consumes the character at its start and \<open>n - 1\<close> more.
\<close>

fun fence_matchAll :: "jsstring \<Rightarrow> jsstring list" where
  "fence_matchAll [] = []"
| "fence_matchAll (c # cs) =
     (case fence_match_at (c # cs) of
        Some (g, n) \<Rightarrow> g # fence_matchAll (drop (n - 1) cs)
      | None \<Rightarrow> fence_matchAll cs)"

text \<open>
  \<open>FUNCTION_CALL_PATTERN\<close> is
  \<open>\<dots>\s*[\<dots>:]\s*([\w\-\.]+)\s*(?:\<dots>|arguments)[\<dots>:]\s*(\{.*?\})\<close> with the flags \<open>g\<close> and
  \<open>s\<close>, where the first literal is four Chinese characters (call function), the
  alternative to \<open>arguments\<close> two (parameters), and the colon is the ASCII or the
  full-width one.
\<close>

definition call_keyword :: jsstring where
  "call_keyword = [35843, 29992, 20989, 25968]"

definition args_keyword :: jsstring where
  "args_keyword = [21442, 25968]"

definition is_colon :: "int \<Rightarrow> bool" where
  "is_colon c \<longleftrightarrow> c = 65306 \<or> c = 58"

definition is_name_char :: "int \<Rightarrow> bool" where
  "is_name_char c \<longleftrightarrow>
     (48 \<le> c \<and> c \<le> 57) \<or> (65 \<le> c \<and> c \<le> 90) \<or> (97 \<le> c \<and> c \<le> 122) \<or>
     c = 95 \<or> c = 45 \<or> c = 46"

fun index_of :: "int \<Rightarrow> jsstring \<Rightarrow> nat option" where
  "index_of x [] = None"
| "index_of x (c # cs) = (if c = x then Some 0 else map_option Suc (index_of x cs))"

text \<open>
  The pattern from the keyword on, matched at the start of \<open>s\<close>: keyword, colon, white
  space, an opening brace and, lazily, everything up to the first closing brace. The
  result is the length matched.
\<close>

definition function_call_tail :: "jsstring \<Rightarrow> nat option" where
  "function_call_tail s =
     (case (if starts_with s args_keyword then Some 2
            else if starts_with s (asc ''arguments'') then Some 9 else None) of
        None \<Rightarrow> None
      | Some k \<Rightarrow>
          (case drop k s of
             [] \<Rightarrow> None
           | c # r \<Rightarrow>
               if is_colon c then
                 let ws = length (takeWhile is_js_space r)
                 in (case drop ws r of
                       [] \<Rightarrow> None
                     | b # body \<Rightarrow>
                         if b = 123 then
                           (case index_of 125 body of
                              Some e \<Rightarrow> Some (k + 1 + ws + 1 + e + 1)
                            | None \<Rightarrow> None)
                         else None)
               else None))"

text \<open>
  The greedy name \<open>[\w\-\.]+\<close> gives characters back one at a time until the rest of the
  pattern matches: \<open>s\<close> starts at the name, \<open>n\<close> is the length tried.
\<close>

fun function_call_name :: "jsstring \<Rightarrow> nat \<Rightarrow> nat option" where
  "function_call_name s 0 = None"
| "function_call_name s (Suc n) =
     (let r = drop (Suc n) s;
          ws = length (takeWhile is_js_space r)
      in case function_call_tail (drop ws r) of
           Some t \<Rightarrow> Some (Suc n + ws + t)
         | None \<Rightarrow> function_call_name s n)"

text \<open>The length of a match at the start of \<open>s\<close>.\<close>

definition function_call_match_at :: "jsstring \<Rightarrow> nat option" where
  "function_call_match_at s =
     (if starts_with s call_keyword then
        let r1 = drop 4 s;
            ws1 = length (takeWhile is_js_space r1)
        in (case drop ws1 r1 of
              [] \<Rightarrow> None
            | c # r2 \<Rightarrow>
                if is_colon c then
                  let ws2 = length (takeWhile is_js_space r2);
                      r3 = drop ws2 r2
                  in (case function_call_name r3 (length (takeWhile is_name_char r3)) of
                        Some t \<Rightarrow> Some (4 + ws1 + 1 + ws2 + t)
                      | None \<Rightarrow> None)
                else None)
      else None)"

text \<open>
  \<open>text.match(FUNCTION_CALL_PATTERN)\<close>: the pattern is global, so the result is the array
  of the matched substrings, without capture groups; the empty list is \<open>null\<close>.
\<close>

fun function_call_matches :: "jsstring \<Rightarrow> jsstring list" where
  "function_call_matches [] = []"
| "function_call_matches (c # cs) =
     (case function_call_match_at (c # cs) of
        Some n \<Rightarrow> take n (c # cs) # function_call_matches (drop (n - 1) cs)
      | None \<Rightarrow> function_call_matches cs)"

subsection \<open>The brace scan\<close>

text \<open>
  The inner \<open>while\<close> loop, started behind an opening brace: it returns the number of
  characters read when \<open>braceCount\<close> has come down to zero, and \<open>None\<close> when the text ends
  before.
\<close>

fun brace_end :: "int \<Rightarrow> bool \<Rightarrow> bool \<Rightarrow> jsstring \<Rightarrow> nat option" where
  "brace_end braceCount inString escapeNext [] = (if braceCount = 0 then Some 0 else None)"
| "brace_end braceCount inString escapeNext (c # cs) =
     (if \<not> braceCount > 0 then (if braceCount = 0 then Some 0 else None)
      else map_option Suc
        (if escapeNext then brace_end braceCount inString False cs
         else if c = 92 then brace_end braceCount inString True cs
         else if c = 34 then brace_end braceCount (\<not> inString) False cs
         else if \<not> inString then
           (if c = 123 then brace_end (braceCount + 1) inString False cs
            else if c = 125 then brace_end (braceCount - 1) inString False cs
            else brace_end braceCount inString False cs)
         else brace_end braceCount inString False cs))"

subsection \<open>\<open>extractToolInvocations\<close>\<close>

text \<open>Attempt 1: the fenced blocks in order; the first that yields tool calls wins.\<close>

fun attempt_fenced :: "runtime \<Rightarrow> jsstring list \<Rightarrow> json list option" where
  "attempt_fenced rt [] = None"
| "attempt_fenced rt (g # gs) =
     (case try_tool_calls rt g of Some r \<Rightarrow> Some r | None \<Rightarrow> attempt_fenced rt gs)"

text \<open>Attempt 2: at every opening brace a balanced candidate is sought and tried.\<close>

fun attempt_inline :: "runtime \<Rightarrow> jsstring \<Rightarrow> json list option" where
  "attempt_inline rt [] = None"
| "attempt_inline rt (c # cs) =
     (if c = 123 then
        (case brace_end 1 False False cs of
           Some n \<Rightarrow>
             (case try_tool_calls rt (c # take n cs) of
                Some r \<Rightarrow> Some r
              | None \<Rightarrow> attempt_inline rt cs)
         | None \<Rightarrow> attempt_inline rt cs)
      else attempt_inline rt cs)"

text \<open>
  Attempt 3. \<open>naturalLangMatch[1]\<close> and \<open>naturalLangMatch[2]\<close> are the second and the third
  match; \<open>trim\<close> called on a missing one throws outside any \<open>try\<close>. \<open>now\<close> is the value of
  \<open>Date.now()\<close>.
\<close>

definition attempt_natural :: "runtime \<Rightarrow> int \<Rightarrow> jsstring \<Rightarrow> error + json list option" where
  "attempt_natural rt now scannableText =
     (case function_call_matches scannableText of
        [] \<Rightarrow> Inr None
      | [m0] \<Rightarrow> Inl TypeError
      | [m0, m1] \<Rightarrow> Inl TypeError
      | m0 # m1 # m2 # ms \<Rightarrow>
          let functionName = trim m1;
              argumentsStr = trim m2
          in (case JSON_parse rt argumentsStr of
                None \<Rightarrow> Inr None
              | Some v \<Rightarrow>
                  Inr (Some
                    [JObject
                       [(asc ''id'', JString (asc ''call_'' @ Number_toString rt (now * 1000000))),
                        (asc ''type'', JString (asc ''function'')),
                        (asc ''function'',
                         JObject [(asc ''name'', JString functionName),
                                  (asc ''arguments'', JString argumentsStr)])]])))"

text \<open>The result is the exception that escapes, or \<open>null\<close> (\<open>None\<close>), or the array returned.\<close>

definition extractToolInvocations ::
  "runtime \<Rightarrow> config \<Rightarrow> int \<Rightarrow> jsstring \<Rightarrow> error + json list option" where
  "extractToolInvocations rt cfg now text =
     (if text = [] then Inr None
      else
        let scannableText = substring0 (SCAN_LIMIT cfg) text
        in case attempt_fenced rt (fence_matchAll scannableText) of
             Some toolCalls \<Rightarrow> Inr (Some toolCalls)
           | None \<Rightarrow>
               (case attempt_inline rt scannableText of
                  Some toolCalls \<Rightarrow> Inr (Some toolCalls)
                | None \<Rightarrow> attempt_natural rt now scannableText))"

subsection \<open>\<open>removeToolJsonContent\<close>\<close>

text \<open>
  \<open>"tool_calls" in parsed\<close> under \<open>try\<close>: a text that does not parse, and a parsed value on
  which \<open>in\<close> throws, count as no tool call.
\<close>

definition has_tool_calls :: "runtime \<Rightarrow> jsstring \<Rightarrow> bool" where
  "has_tool_calls rt jsonContent =
     (case JSON_parse rt jsonContent of
        Some (JObject kvs) \<Rightarrow> asc ''tool_calls'' \<in> fst ` set kvs
      | _ \<Rightarrow> False)"

text \<open>Step 1: \<open>text.replace(TOOL_CALL_FENCE_PATTERN, removeToolCallBlock)\<close>.\<close>

fun remove_fenced :: "runtime \<Rightarrow> jsstring \<Rightarrow> jsstring" where
  "remove_fenced rt [] = []"
| "remove_fenced rt (c # cs) =
     (case fence_match_at (c # cs) of
        Some (g, n) \<Rightarrow>
          (if has_tool_calls rt g then [] else take n (c # cs)) @ remove_fenced rt (drop (n - 1) cs)
      | None \<Rightarrow> c # remove_fenced rt cs)"

text \<open>Step 2: the scan that skips a balanced candidate carrying \<open>tool_calls\<close>.\<close>

fun remove_inline :: "runtime \<Rightarrow> jsstring \<Rightarrow> jsstring" where
  "remove_inline rt [] = []"
| "remove_inline rt (c # cs) =
     (if c = 123 then
        (case brace_end 1 False False cs of
           Some n \<Rightarrow>
             if has_tool_calls rt (c # take n cs) then remove_inline rt (drop n cs)
             else c # remove_inline rt cs
         | None \<Rightarrow> c # remove_inline rt cs)
      else c # remove_inline rt cs)"

definition removeToolJsonContent :: "runtime \<Rightarrow> jsstring \<Rightarrow> jsstring" where
  "removeToolJsonContent rt text = trim (remove_inline rt (remove_fenced rt text))"

section \<open>Notions used to state the properties\<close>

text \<open>No dynamic key is a builtin key or the upstream model id of a builtin mapping.\<close>

definition dynamic_disjoint :: "config \<Rightarrow> ModelMappingManager \<Rightarrow> bool" where
  "dynamic_disjoint cfg s =
     (\<forall>k \<in> fst ` set (dynamicMappings s).
        k \<notin> fst ` set (BUILTIN_MODEL_MAPPINGS cfg) \<and>
        k \<notin> set (map upstreamModelId (map snd (BUILTIN_MODEL_MAPPINGS cfg))))"

text \<open>\<open>tc.function.arguments\<close>, where both properties exist.\<close>

definition call_arguments :: "json \<Rightarrow> json option" where
  "call_arguments tc =
     (case get_prop tc (asc ''function'') of
        Inr (Some func) \<Rightarrow>
          (case get_prop func (asc ''arguments'') of Inr (Some a) \<Rightarrow> Some a | _ \<Rightarrow> None)
      | _ \<Rightarrow> None)"

text \<open>No balanced candidate that starts within \<open>xs\<close>, read in \<open>xs @ rest\<close>, carries tool calls.\<close>

fun no_tool_start :: "runtime \<Rightarrow> jsstring \<Rightarrow> jsstring \<Rightarrow> bool" where
  "no_tool_start rt [] rest = True"
| "no_tool_start rt (c # cs) rest =
     ((c = 123 \<longrightarrow>
         (case brace_end 1 False False (cs @ rest) of
            Some n \<Rightarrow> \<not> has_tool_calls rt (c # take n (cs @ rest))
          | None \<Rightarrow> True)) \<and>
      no_tool_start rt cs rest)"

text \<open>
  Every match of the fence pattern that the search meets starting within \<open>xs\<close>, read in
  \<open>xs @ rest\<close>, ends within \<open>xs\<close> and has a group that carries no tool calls.
\<close>

fun harmless_fences :: "runtime \<Rightarrow> jsstring \<Rightarrow> jsstring \<Rightarrow> bool" where
  "harmless_fences rt [] rest = True"
| "harmless_fences rt (c # cs) rest =
     (case fence_match_at (c # cs @ rest) of
        Some (g, n) \<Rightarrow>
          \<not> has_tool_calls rt g \<and> n \<le> length (c # cs) \<and> harmless_fences rt (drop (n - 1) cs) rest
      | None \<Rightarrow> harmless_fences rt cs rest)"

section \<open>Example inputs\<close>

text \<open>Concrete configurations, requests and texts on which the properties are evaluated.\<close>

definition example_config :: config where
  "example_config =
     \<lparr>PRIMARY_MODEL = asc ''GLM-4.5'', THINKING_MODEL = asc ''GLM-4.5-Thinking'',
      SEARCH_MODEL = asc ''GLM-4.5-Search'', AIR_MODEL = asc ''GLM-4.5-Air'',
      PRIMARY_MODEL_NEW = asc ''GLM-4.6'', THINKING_MODEL_NEW = asc ''GLM-4.6-Thinking'',
      SEARCH_MODEL_NEW = asc ''GLM-4.6-Search'', TOOL_SUPPORT = True, SCAN_LIMIT = 200000\<rparr>"

definition example_models :: "ZAIModel list" where
  "example_models =
     [\<lparr>id' = asc ''GLM-4.5'', zai_name = Some (asc ''Shadow''), display_name = None,
       owned_by = None\<rparr>,
      \<lparr>id' = asc ''0727-360B-API'', zai_name = Some (asc ''GLM-4.5''), display_name = None,
       owned_by = Some (asc ''openai'')\<rparr>,
      \<lparr>id' = asc ''glm-4.5v'', zai_name = Some (asc ''GLM-4.5V''), display_name = None,
       owned_by = Some (asc ''openai'')\<rparr>]"

definition example_calls :: "(int \<times> ZAIModel list) list" where
  "example_calls = [(1700000000000, example_models), (1700000060000, []), (1700000400000, example_models)]"


definition user_says :: "jsstring \<Rightarrow> Message" where
  "user_says s = \<lparr>role = user_role, content = CString s, msg_name = None, reasoning_content = None\<rparr>"

definition system_says :: "jsstring \<Rightarrow> Message" where
  "system_says s = \<lparr>role = system_role, content = CString s, msg_name = None, reasoning_content = None\<rparr>"



definition natural_call_text :: jsstring where
  "natural_call_text = call_keyword @ asc '': get_weather '' @ args_keyword @ asc '': {}''"

definition natural_city_text :: jsstring where
  "natural_city_text =
     call_keyword @ asc '': get_weather '' @ args_keyword @ asc '': {\"city\":\"NYC\"}''"

definition fenced_call_text :: jsstring where
  "fenced_call_text =
     asc ''Sure.\<newline>```json\<newline>{\"tool_calls\":[{\"function\":{\"name\":\"f\",\"arguments\":{\"a\":1}}}]}\<newline>```\<newline>Done.''"

definition bare_call_text :: jsstring where
  "bare_call_text =
     asc ''{\"tool_calls\":[{\"id\":\"call_1\",\"type\":\"function\",\"function\":{\"name\":\"get_time\"}}]}''"

definition tool_object :: jsstring where
  "tool_object = asc ''{\"tool_calls\":[{\"function\":{\"name\":\"f\",\"arguments\":\"{}\"}}]}''"

section \<open>Properties of the model mapping cache\<close>

lemma map_of_obj_set: "map_of (obj_set ob k v) = (map_of ob)(k \<mapsto> v)"
  by (induction ob k v rule: obj_set.induct) auto

lemma fst_set_obj_set: "fst ` set (obj_set ob k v) = insert k (fst ` set ob)"
  by (induction ob k v rule: obj_set.induct) auto

lemma map_of_obj_assign: "map_of (obj_assign dst src) = map_of dst ++ map_of (rev src)"
  unfolding obj_assign_def
proof (induction src arbitrary: dst)
  case Nil
  show ?case by simp
next
  case (Cons e src)
  obtain k v where e: "e = (k, v)" by (cases e)
  have "map_of (foldl (\<lambda>ob (k, v). obj_set ob k v) (obj_set dst k v) src)
          = map_of (obj_set dst k v) ++ map_of (rev src)"
    by (rule Cons.IH)
  also have "\<dots> = map_of dst ++ map_of (rev src @ [(k, v)])"
    by (simp add: map_of_obj_set)
  finally show ?case by (simp add: e)
qed

lemma obj_set_fresh: "k \<notin> fst ` set ob \<Longrightarrow> obj_set ob k v = ob @ [(k, v)]"
  by (induction ob k v rule: obj_set.induct) auto

lemma distinct_obj_set: "distinct (map fst ob) \<Longrightarrow> distinct (map fst (obj_set ob k v))"
  by (induction ob k v rule: obj_set.induct) (auto simp: fst_set_obj_set)

lemma distinct_obj_assign: "distinct (map fst dst) \<Longrightarrow> distinct (map fst (obj_assign dst src))"
  unfolding obj_assign_def
  by (induction src arbitrary: dst) (auto simp: distinct_obj_set split: prod.splits)

lemma obj_assign_distinct:
  "distinct (map fst (dst @ src)) \<Longrightarrow> obj_assign dst src = dst @ src"
  unfolding obj_assign_def
proof (induction src arbitrary: dst)
  case Nil
  show ?case by simp
next
  case (Cons e src)
  obtain k v where e: "e = (k, v)" by (cases e)
  from Cons.prems have fresh: "k \<notin> fst ` set dst" and d: "distinct (map fst ((dst @ [(k, v)]) @ src))"
    by (auto simp: e)
  from Cons.IH [OF d] show ?case
    by (simp add: e obj_set_fresh [OF fresh])
qed

lemma distinct_BUILTIN: "distinct (map fst (BUILTIN_MODEL_MAPPINGS cfg))"
  unfolding BUILTIN_MODEL_MAPPINGS_def by (rule distinct_obj_assign) simp

lemma obj_get_Undefined: "obj_get ob k = Undefined \<Longrightarrow> k \<notin> fst ` set ob"
  by (auto simp: obj_get_def map_of_eq_None_iff split: option.splits if_splits)

lemma update_step_keys:
  "fst ` set (dynamicMappings (update_step cfg s model)) = fst ` set (dynamicMappings s) \<or>
   fst ` set (dynamicMappings (update_step cfg s model)) = insert (id' model) (fst ` set (dynamicMappings s)) \<and>
   id' model \<notin> set (map upstreamModelId (map snd (BUILTIN_MODEL_MAPPINGS cfg))) \<and>
   id' model \<notin> fst ` set (BUILTIN_MODEL_MAPPINGS cfg)"
proof (cases "id' model \<in> set (map upstreamModelId (map snd (BUILTIN_MODEL_MAPPINGS cfg)))")
  case True
  then show ?thesis by (simp add: update_step_def Let_def)
next
  case notup: False
  show ?thesis
  proof (cases "obj_get (BUILTIN_MODEL_MAPPINGS cfg) (id' model) = Undefined")
    case True
    then have "id' model \<notin> fst ` set (BUILTIN_MODEL_MAPPINGS cfg)"
      by (rule obj_get_Undefined)
    moreover have "fst ` set (dynamicMappings (update_step cfg s model))
        = insert (id' model) (fst ` set (dynamicMappings s))"
      using notup True by (simp add: update_step_def Let_def addDynamicMapping_def fst_set_obj_set)
    ultimately show ?thesis using notup by blast
  next
    case False
    then show ?thesis using notup by (simp add: update_step_def Let_def)
  qed
qed

lemma update_step_disjoint:
  assumes inv: "dynamic_disjoint cfg s"
  shows "dynamic_disjoint cfg (update_step cfg s model)"
  unfolding dynamic_disjoint_def
proof
  fix k
  assume k: "k \<in> fst ` set (dynamicMappings (update_step cfg s model))"
  let ?ok = "\<lambda>k. k \<notin> fst ` set (BUILTIN_MODEL_MAPPINGS cfg) \<and>
        k \<notin> set (map upstreamModelId (map snd (BUILTIN_MODEL_MAPPINGS cfg)))"
  from inv have old: "\<And>k'. k' \<in> fst ` set (dynamicMappings s) \<Longrightarrow> ?ok k'"
    unfolding dynamic_disjoint_def by (rule bspec)
  from update_step_keys [of cfg s model] show "?ok k"
  proof
    assume "fst ` set (dynamicMappings (update_step cfg s model)) = fst ` set (dynamicMappings s)"
    with k have "k \<in> fst ` set (dynamicMappings s)" by simp
    then show ?thesis by (rule old)
  next
    assume new: "fst ` set (dynamicMappings (update_step cfg s model))
          = insert (id' model) (fst ` set (dynamicMappings s)) \<and>
        id' model \<notin> set (map upstreamModelId (map snd (BUILTIN_MODEL_MAPPINGS cfg))) \<and>
        id' model \<notin> fst ` set (BUILTIN_MODEL_MAPPINGS cfg)"
    with k have "k = id' model \<or> k \<in> fst ` set (dynamicMappings s)" by simp
    then show ?thesis
    proof
      assume "k = id' model"
      with new show ?thesis by simp
    next
      assume "k \<in> fst ` set (dynamicMappings s)"
      then show ?thesis by (rule old)
    qed
  qed
qed

lemma foldl_update_step_disjoint:
  "dynamic_disjoint cfg s \<Longrightarrow> dynamic_disjoint cfg (foldl (update_step cfg) s ms)"
  by (induction ms arbitrary: s) (auto simp: update_step_disjoint)

lemma update_step_time: "lastUpdateTime (update_step cfg s model) = lastUpdateTime s"
  by (simp add: update_step_def Let_def addDynamicMapping_def)

lemma updateFromZAIModels_disjoint:
  "dynamic_disjoint cfg s \<Longrightarrow> dynamic_disjoint cfg (updateFromZAIModels cfg now ms s)"
proof -
  have "dynamic_disjoint cfg (s\<lparr>dynamicMappings := []\<rparr>)"
    by (simp add: dynamic_disjoint_def)
  then have "dynamic_disjoint cfg (foldl (update_step cfg) (s\<lparr>dynamicMappings := []\<rparr>) ms)"
    by (rule foldl_update_step_disjoint)
  then have "dynamic_disjoint cfg
      ((foldl (update_step cfg) (s\<lparr>dynamicMappings := []\<rparr>) ms)\<lparr>lastUpdateTime := now\<rparr>)"
    by (simp add: dynamic_disjoint_def)
  then show "dynamic_disjoint cfg s \<Longrightarrow> ?thesis"
    by (simp add: updateFromZAIModels_def)
qed

lemma refreshes_disjoint:
  "dynamic_disjoint cfg s \<Longrightarrow> dynamic_disjoint cfg (refreshes cfg calls s)"
  unfolding refreshes_def
  by (induction calls arbitrary: s) (auto simp: updateFromZAIModels_disjoint)

lemma getMappings_builtin:
  assumes "dynamic_disjoint cfg s" and "map_of (BUILTIN_MODEL_MAPPINGS cfg) k = Some m"
  shows "getMappingByModelId cfg s k = Own m"
proof -
  have copy: "obj_assign [] (BUILTIN_MODEL_MAPPINGS cfg) = BUILTIN_MODEL_MAPPINGS cfg"
    using obj_assign_distinct [of "[]" "BUILTIN_MODEL_MAPPINGS cfg"] distinct_BUILTIN by simp
  from assms(2) have "k \<in> fst ` set (BUILTIN_MODEL_MAPPINGS cfg)"
    by (metis domI dom_map_of_conv_image_fst)
  with assms(1) have "k \<notin> fst ` set (dynamicMappings s)"
    unfolding dynamic_disjoint_def by blast
  then have "map_of (rev (dynamicMappings s)) k = None"
    by (simp add: map_of_eq_None_iff)
  then have "map_of (getMappings cfg s) k = Some m"
    by (simp add: getMappings_def copy map_of_obj_assign map_add_def assms(2))
  then show ?thesis
    by (simp add: getMappingByModelId_def obj_get_def)
qed

lemma updateFromZAIModels_time:
  "UPDATE_INTERVAL \<le> now - lastUpdateTime s \<Longrightarrow>
   lastUpdateTime (updateFromZAIModels cfg now ms s) = now"
  by (simp add: updateFromZAIModels_def)

lemmas mapper_defs =
  asc_def BUILTIN_MODEL_MAPPINGS_def builtin_entries_def obj_assign_def example_config_def
  example_models_def example_calls_def refreshes_def updateFromZAIModels_def update_step_def
  Let_def addDynamicMapping_def new_ModelMappingManager_def UPDATE_INTERVAL_def obj_get_def
  Object_prototype_names_def getMappingByModelId_def getMappings_def no_features_def z_ai_def

text \<open>
  C2. For every key of the builtin mappings and after any sequence of refresh calls on a
  fresh cache, whatever the clock readings and the observed model lists, looking the key
  up returns the builtin mapping itself; and no key of the dynamic mappings is a builtin
  key or the upstream model id of a builtin mapping.
\<close>

theorem builtin_never_shadowed:
  assumes "map_of (BUILTIN_MODEL_MAPPINGS cfg) k = Some m"
  shows "getMappingByModelId cfg (refreshes cfg calls new_ModelMappingManager) k = Own m \<and>
         (\<forall>d \<in> fst ` set (dynamicMappings (refreshes cfg calls new_ModelMappingManager)).
            d \<notin> fst ` set (BUILTIN_MODEL_MAPPINGS cfg) \<and>
            d \<notin> set (map upstreamModelId (map snd (BUILTIN_MODEL_MAPPINGS cfg))))"
proof -
  have "dynamic_disjoint cfg new_ModelMappingManager"
    by (simp add: dynamic_disjoint_def new_ModelMappingManager_def)
  then have inv: "dynamic_disjoint cfg (refreshes cfg calls new_ModelMappingManager)"
    by (rule refreshes_disjoint)
  from inv assms have "getMappingByModelId cfg (refreshes cfg calls new_ModelMappingManager) k = Own m"
    by (rule getMappings_builtin)
  moreover from inv have
    "\<forall>d \<in> fst ` set (dynamicMappings (refreshes cfg calls new_ModelMappingManager)).
        d \<notin> fst ` set (BUILTIN_MODEL_MAPPINGS cfg) \<and>
        d \<notin> set (map upstreamModelId (map snd (BUILTIN_MODEL_MAPPINGS cfg)))"
    unfolding dynamic_disjoint_def .
  ultimately show ?thesis by (rule conjI)
qed

theorem builtin_never_shadowed_witness:
  "map_of (BUILTIN_MODEL_MAPPINGS example_config) (asc ''GLM-4.5'')
     = Some \<lparr>displayName = asc ''GLM-4.5'', upstreamModelId = asc ''0727-360B-API'',
             upstreamModelName = asc ''GLM-4.5'', features = no_features,
             mcpServers = None, ownedBy = Some z_ai, isBuiltin = True,
             description = Some (asc ''GLM-4.5 '' @ [22522, 30784, 27169, 22411])\<rparr> \<and>
   getMappingByModelId example_config
       (refreshes example_config example_calls new_ModelMappingManager) (asc ''GLM-4.5'')
     = Own \<lparr>displayName = asc ''GLM-4.5'', upstreamModelId = asc ''0727-360B-API'',
            upstreamModelName = asc ''GLM-4.5'', features = no_features,
            mcpServers = None, ownedBy = Some z_ai, isBuiltin = True,
            description = Some (asc ''GLM-4.5 '' @ [22522, 30784, 27169, 22411])\<rparr> \<and>
   map fst (dynamicMappings (refreshes example_config example_calls new_ModelMappingManager))
     = [asc ''glm-4.5v''] \<and>
   asc ''glm-4.5v'' \<notin> fst ` set (BUILTIN_MODEL_MAPPINGS example_config) \<and>
   asc ''glm-4.5v'' \<notin> set (map upstreamModelId (map snd (BUILTIN_MODEL_MAPPINGS example_config)))"
proof -
  let ?s = "refreshes example_config example_calls new_ModelMappingManager"
  let ?m = "\<lparr>displayName = asc ''GLM-4.5'', upstreamModelId = asc ''0727-360B-API'',
             upstreamModelName = asc ''GLM-4.5'', features = no_features,
             mcpServers = None, ownedBy = Some z_ai, isBuiltin = True,
             description = Some (asc ''GLM-4.5 '' @ [22522, 30784, 27169, 22411])\<rparr>"
  have h: "map_of (BUILTIN_MODEL_MAPPINGS example_config) (asc ''GLM-4.5'') = Some ?m"
    by (simp add: mapper_defs)
  have d: "map fst (dynamicMappings ?s) = [asc ''glm-4.5v'']"
    by (simp add: mapper_defs)
  then have "set (map fst (dynamicMappings ?s)) = {asc ''glm-4.5v''}"
    by simp
  then have mem: "asc ''glm-4.5v'' \<in> fst ` set (dynamicMappings ?s)"
    by simp
  note inst = builtin_never_shadowed [OF h, of example_calls]
  from inst have "getMappingByModelId example_config ?s (asc ''GLM-4.5'') = Own ?m"
    by (rule conjunct1)
  moreover from inst mem have
    "asc ''glm-4.5v'' \<notin> fst ` set (BUILTIN_MODEL_MAPPINGS example_config) \<and>
     asc ''glm-4.5v'' \<notin> set (map upstreamModelId (map snd (BUILTIN_MODEL_MAPPINGS example_config)))"
    by blast
  ultimately show ?thesis using h d by blast
qed

text \<open>
  C4. When a refresh has taken place at clock reading \<open>now1\<close> (the update interval of five
  minutes had elapsed), a second refresh at a reading less than five minutes later leaves
  the cache as it is, dynamic mappings and time of the last update alike, whatever models
  the second call is given.
\<close>

theorem refresh_within_ttl_is_noop:
  assumes "UPDATE_INTERVAL \<le> now1 - lastUpdateTime s0"
      and "now2 - now1 < 5 * 60 * 1000"
  shows "updateFromZAIModels cfg now2 ms2 (updateFromZAIModels cfg now1 ms1 s0)
           = updateFromZAIModels cfg now1 ms1 s0 \<and>
         dynamicMappings (updateFromZAIModels cfg now2 ms2 (updateFromZAIModels cfg now1 ms1 s0))
           = dynamicMappings (updateFromZAIModels cfg now1 ms1 s0) \<and>
         lastUpdateTime (updateFromZAIModels cfg now2 ms2 (updateFromZAIModels cfg now1 ms1 s0))
           = now1"
proof -
  let ?s1 = "updateFromZAIModels cfg now1 ms1 s0"
  from assms(1) have t: "lastUpdateTime ?s1 = now1"
    by (rule updateFromZAIModels_time)
  with assms(2) have "now2 - lastUpdateTime ?s1 < UPDATE_INTERVAL"
    by (simp add: UPDATE_INTERVAL_def)
  then have "updateFromZAIModels cfg now2 ms2 ?s1 = ?s1"
    by (simp add: updateFromZAIModels_def)
  with t show ?thesis by simp
qed

theorem refresh_within_ttl_is_noop_witness:
  "UPDATE_INTERVAL \<le> 1700000000000 - lastUpdateTime new_ModelMappingManager \<and>
   (1700000299999::int) - 1700000000000 < 5 * 60 * 1000 \<and>
   map fst (dynamicMappings (updateFromZAIModels example_config 1700000000000 example_models
      new_ModelMappingManager)) = [asc ''glm-4.5v''] \<and>
   updateFromZAIModels example_config 1700000299999 []
       (updateFromZAIModels example_config 1700000000000 example_models new_ModelMappingManager)
     = updateFromZAIModels example_config 1700000000000 example_models new_ModelMappingManager"
proof -
  have h1: "UPDATE_INTERVAL \<le> 1700000000000 - lastUpdateTime new_ModelMappingManager"
    by (simp add: UPDATE_INTERVAL_def new_ModelMappingManager_def)
  have h2: "(1700000299999::int) - 1700000000000 < 5 * 60 * 1000"
    by simp
  have d: "map fst (dynamicMappings (updateFromZAIModels example_config 1700000000000
      example_models new_ModelMappingManager)) = [asc ''glm-4.5v'']"
    by (simp add: mapper_defs)
  from refresh_within_ttl_is_noop [OF h1 h2, of example_config "[]" example_models]
  have "updateFromZAIModels example_config 1700000299999 []
       (updateFromZAIModels example_config 1700000000000 example_models new_ModelMappingManager)
     = updateFromZAIModels example_config 1700000000000 example_models new_ModelMappingManager"
    by (rule conjunct1)
  with h1 h2 d show ?thesis by blast
qed

section \<open>Properties of the message preprocessor\<close>

lemma starts_with_append: "starts_with (n @ r) n"
  by (induction n) auto

lemma js_includes_append: "js_includes (a @ n @ b) n"
proof (induction a)
  case Nil
  show ?case by (cases "n @ b") (use starts_with_append [of n b] in auto)
next
  case (Cons c a)
  then show ?case by simp
qed

lemma instruction_has_marker: "js_includes (s @ thinkingInstruction) thinking_marker"
proof -
  obtain a b where "thinkingInstruction = a @ thinking_marker @ b"
    unfolding thinkingInstruction_def by blast
  then have "s @ thinkingInstruction = (s @ a) @ thinking_marker @ b" by simp
  then show ?thesis by (simp only: js_includes_append)
qed

lemma thinking_loop_idem:
  "thinking_loop ms = Some r \<Longrightarrow> thinking_loop r = Some r"
proof (induction ms arbitrary: r)
  case Nil
  then show ?case by simp
next
  case (Cons m ms)
  show ?case
  proof (cases "role m = system_role")
    case True
    with Cons.prems show ?thesis
      by (auto simp: Let_def instruction_has_marker)
  next
    case False
    with Cons.prems obtain r' where r': "thinking_loop ms = Some r'" and r: "r = m # r'"
      by auto
    from Cons.IH [OF r'] False show ?thesis by (simp add: r)
  qed
qed

text \<open>
  C6. Applying \<open>addThinkingPromptToMessages\<close> twice to a message list gives what applying
  it once gives: after the first application the first system message contains the
  marker \<open><thinking>\<close>, so the second application appends nothing and adds no message.
\<close>

theorem addThinkingPromptToMessages_idempotent:
  "addThinkingPromptToMessages (addThinkingPromptToMessages messages)
     = addThinkingPromptToMessages messages"
proof (cases "thinking_loop messages")
  case None
  then show ?thesis
    by (simp add: addThinkingPromptToMessages_def Let_def instruction_has_marker)
next
  case (Some r)
  then show ?thesis
    by (simp add: addThinkingPromptToMessages_def thinking_loop_idem)
qed

lemma trim_empty_iff: "trim s = [] \<longleftrightarrow> (\<forall>c \<in> set s. is_js_space c)"
proof -
  have "trim s = [] \<longleftrightarrow> (\<forall>c \<in> set (dropWhile is_js_space s). is_js_space c)"
    by (simp add: trim_def dropWhile_eq_Nil_conv)
  also have "\<dots> \<longleftrightarrow> (\<forall>c \<in> set s. is_js_space c)"
  proof
    assume a: "\<forall>c \<in> set (dropWhile is_js_space s). is_js_space c"
    show "\<forall>c \<in> set s. is_js_space c"
    proof (cases "dropWhile is_js_space s")
      case Nil
      then show ?thesis by (simp add: dropWhile_eq_Nil_conv)
    next
      case (Cons c cs)
      then have "\<not> is_js_space c" using hd_dropWhile [of is_js_space s] by simp
      with a Cons show ?thesis by simp
    qed
  next
    assume "\<forall>c \<in> set s. is_js_space c"
    then show "\<forall>c \<in> set (dropWhile is_js_space s). is_js_space c"
      by (simp add: dropWhile_eq_Nil_conv [THEN iffD2])
  qed
  finally show ?thesis .
qed

lemma tool_block_not_blank: "trim (tool_result_block toolName toolContent) \<noteq> []"
proof -
  have "24037 \<in> set (tool_result_block toolName toolContent)"
    by (simp add: tool_result_block_def)
  moreover have "\<not> is_js_space 24037"
    by (simp add: is_js_space_def)
  ultimately show ?thesis
    unfolding trim_empty_iff by blast
qed

lemma normalize_tool_message:
  "role m = asc ''tool'' \<or> role m = asc ''function'' \<Longrightarrow>
   normalize_message m =
     \<lparr>role = assistant_role,
      content = CString (tool_result_block (str_or (msg_name m) (asc ''unknown''))
                           (contentToString (content m))),
      msg_name = None, reasoning_content = None\<rparr>"
  by (simp add: normalize_message_def Let_def tool_block_not_blank)




text \<open>
  An empty tools array is a supplied argument: with tool support on and a tool choice
  other than \<open>none\<close> the injection branch runs, although the catalog is empty.
\<close>

lemma empty_tools_array_counts_as_supplied:
  "processMessagesWithTools example_config [user_says (asc ''hi'')] (Some []) (TCString (asc ''auto''))
     = [system_says tools_persona, user_says (asc ''hi'' @ use_tools_hint)]"
  by (simp add: processMessagesWithTools_def inject_tools_def example_config_def user_says_def
      system_says_def normalize_message_def generateToolPrompt_def hint_last_user_def
      user_role_def system_role_def asc_def)

text \<open>
  C9. A tool message named \<open>get_weather\<close> whose content is the empty string is rewritten
  to an assistant message, but its content is the quote block around an empty body and
  not the placeholder: the test for emptiness is made on the block, which is never blank.
\<close>

theorem empty_tool_result_keeps_quote_block:
  "processMessagesWithTools example_config
     [\<lparr>role = asc ''tool'', content = CString [], msg_name = Some (asc ''get_weather''),
       reasoning_content = None\<rparr>] None TCUndefined
   = [\<lparr>role = asc ''assistant'',
       content = CString ([24037, 20855, 32] @ asc ''get_weather''
                          @ [32, 36820, 22238, 32467, 26524, 58]
                          @ asc ''\<newline>```json\<newline>\<newline>```''),
       msg_name = None, reasoning_content = None\<rparr>] \<and>
   [24037, 20855, 32] @ asc ''get_weather'' @ [32, 36820, 22238, 32467, 26524, 58]
       @ asc ''\<newline>```json\<newline>\<newline>```''
     \<noteq> tool_done_placeholder (asc ''get_weather'')"
  by (simp add: processMessagesWithTools_def inject_tools_def normalize_tool_message
      tool_result_block_def tool_done_placeholder_def assistant_role_def asc_def)

section \<open>Properties of the handler\<close>










section \<open>Properties of the extraction\<close>

text \<open>When an exception escapes: the first two attempts find nothing and the pattern matches once or twice.\<close>

lemma extractToolInvocations_throws_iff:
  "extractToolInvocations rt cfg now text = Inl e \<longleftrightarrow>
     text \<noteq> [] \<and>
     attempt_fenced rt (fence_matchAll (substring0 (SCAN_LIMIT cfg) text)) = None \<and>
     attempt_inline rt (substring0 (SCAN_LIMIT cfg) text) = None \<and>
     length (function_call_matches (substring0 (SCAN_LIMIT cfg) text)) \<in> {1, 2}"
  by (cases e)
     (auto simp: extractToolInvocations_def attempt_natural_def Let_def
       split: option.splits list.splits)

lemma starts_with_Cons:
  "starts_with s (x # xs) \<Longrightarrow> \<exists>r. s = x # r"
  by (cases s) auto

lemma function_call_match_at_head:
  assumes "function_call_match_at s = Some n"
  shows "(\<exists>r. s = 35843 # r) \<and> 0 < n"
proof -
  from assms have sw: "starts_with s call_keyword"
    by (auto simp: function_call_match_at_def split: if_splits)
  then have "\<exists>r. s = 35843 # r"
    unfolding call_keyword_def by (rule starts_with_Cons)
  moreover from assms sw have "0 < n"
    by (auto simp: function_call_match_at_def Let_def split: list.splits if_splits option.splits)
  ultimately show ?thesis ..
qed

lemma function_call_matches_head:
  "m \<in> set (function_call_matches s) \<Longrightarrow> \<exists>r. m = 35843 # r"
proof (induction s rule: function_call_matches.induct)
  case 1
  then show ?case by simp
next
  case (2 c cs)
  show ?case
  proof (cases "function_call_match_at (c # cs)")
    case None
    with 2 show ?thesis by simp
  next
    case (Some n)
    from function_call_match_at_head [OF Some] have c: "c = 35843" and n: "0 < n"
      by auto
    from "2.prems" Some have "m = take n (c # cs) \<or> m \<in> set (function_call_matches (drop (n - 1) cs))"
      by simp
    then show ?thesis
    proof
      assume "m = take n (c # cs)"
      with c n show ?thesis by (cases n) auto
    next
      assume "m \<in> set (function_call_matches (drop (n - 1) cs))"
      with "2.IH"(2) [OF Some] show ?thesis .
    qed
  qed
qed

lemma dropWhile_snoc_keep:
  "\<not> P x \<Longrightarrow> \<exists>ys. dropWhile P (xs @ [x]) = ys @ [x]"
  by (induction xs) auto

lemma trim_keeps_head:
  assumes "\<not> is_js_space x"
  shows "\<exists>r. trim (x # xs) = x # r"
proof -
  from assms have "dropWhile is_js_space (x # xs) = x # xs" by simp
  moreover from dropWhile_snoc_keep [of is_js_space x "rev xs", OF assms] obtain ys where
    "dropWhile is_js_space (rev xs @ [x]) = ys @ [x]" ..
  ultimately have "trim (x # xs) = x # rev ys"
    by (simp add: trim_def)
  then show ?thesis ..
qed

lemma json_parse_rejects_keyword: "json_parse (35843 # r) = None"
proof -
  have fuel: "2 * length (35843 # r) + 2 = Suc (2 * length r + 3)" by simp
  have "\<And>n. parse_value (Suc n) (35843 # r) = None"
    by (simp add: is_json_space_def asc_def parse_number_def is_digit_def Let_def
        del: One_nat_def)
  then have "parse_value (Suc (2 * length r + 3)) (35843 # r) = None" .
  then show ?thesis
    by (simp only: json_parse_def fuel option.case)
qed

text \<open>
  With the reference parser the third attempt never returns a tool call: what it parses
  as arguments is a whole match, which begins with the keyword.
\<close>

lemma natural_fallback_never_returns_a_call:
  "attempt_natural deno now s \<noteq> Inr (Some calls)"
proof
  assume a: "attempt_natural deno now s = Inr (Some calls)"
  then obtain m0 m1 m2 ms where ms: "function_call_matches s = m0 # m1 # m2 # ms"
    and p: "JSON_parse deno (trim m2) \<noteq> None"
    by (auto simp: attempt_natural_def Let_def split: list.splits option.splits)
  from ms have "m2 \<in> set (function_call_matches s)" by simp
  then obtain r where "m2 = 35843 # r" by (auto dest: function_call_matches_head)
  moreover have "\<not> is_js_space 35843" by (simp add: is_js_space_def)
  ultimately obtain r' where "trim m2 = 35843 # r'"
    using trim_keeps_head by blast
  then have "JSON_parse deno (trim m2) = None"
    by (simp add: deno_def json_parse_rejects_keyword)
  with p show False ..
qed

text \<open>
  C1. A text with one occurrence of the natural-language phrasing and no tool-call JSON
  makes \<open>extractToolInvocations\<close> throw: the global pattern gives \<open>match\<close> an array with
  the one matched substring, \<open>naturalLangMatch[1]\<close> is \<open>undefined\<close>, and \<open>trim\<close> is called
  on it outside every \<open>try\<close>.
\<close>

theorem single_natural_call_throws:
  "extractToolInvocations deno example_config 1700000000000 natural_call_text = Inl TypeError"
  by code_simp

text \<open>
  C7. A text without fenced or inline tool-call JSON that matches the phrasing once, with
  arguments that are valid JSON, does not yield a synthesized tool call: the call throws.
\<close>

theorem natural_call_not_synthesized:
  "attempt_fenced deno (fence_matchAll natural_city_text) = None \<and>
   attempt_inline deno natural_city_text = None \<and>
   function_call_matches natural_city_text = [natural_city_text] \<and>
   JSON_parse deno (asc ''{\"city\":\"NYC\"}'') = Some (JObject [(asc ''city'', JString (asc ''NYC''))]) \<and>
   extractToolInvocations deno example_config 1700000000000 natural_city_text = Inl TypeError"
  by code_simp

lemma get_prop_Some_object:
  "get_prop v k = Inr (Some x) \<Longrightarrow> \<exists>kvs. v = JObject kvs \<and> map_of kvs k = Some x"
  by (cases v) auto

lemma normalize_call_strings:
  assumes "normalize_call rt tc = Inr tc'"
      and "get_prop tc' (asc ''function'') = Inr (Some func')"
      and "get_prop func' (asc ''arguments'') = Inr (Some a')"
      and "truthy (Some a')"
  shows "is_string a'"
proof -
  from assms(2) obtain kvs' where tc': "tc' = JObject kvs'" and f': "map_of kvs' (asc ''function'') = Some func'"
    by (auto dest: get_prop_Some_object)
  from assms(3) obtain fkvs' where func': "func' = JObject fkvs'" and a': "map_of fkvs' (asc ''arguments'') = Some a'"
    by (auto dest: get_prop_Some_object)
  show ?thesis
  proof (cases tc)
    case (JObject kvs)
    show ?thesis
    proof (cases "map_of kvs (asc ''function'')")
      case None
      with assms(1) JObject tc' f' show ?thesis
        by (simp add: normalize_call_def)
    next
      case (Some func)
      show ?thesis
      proof (cases func)
        case fo: (JObject fkvs)
        show ?thesis
        proof (cases "map_of fkvs (asc ''arguments'')")
          case None
          with assms(1) JObject Some fo tc' f' func' a' show ?thesis
            by (simp add: normalize_call_def)
        next
          case (Some a)
          with assms(1,4) JObject \<open>map_of kvs (asc ''function'') = Some func\<close> fo tc' f' func' a'
          show ?thesis
            by (cases "truthy (Some a)"; cases "is_object a"; cases "is_string a")
               (auto simp: normalize_call_def map_of_obj_set)
        qed
      qed (use assms(1) JObject Some tc' f' func' in \<open>auto simp: normalize_call_def split: if_splits\<close>)
    qed
  qed (use assms(1) tc' in \<open>auto simp: normalize_call_def split: if_splits\<close>)
qed

lemma call_arguments_Some:
  "call_arguments tc = Some a \<longleftrightarrow>
   (\<exists>func. get_prop tc (asc ''function'') = Inr (Some func) \<and>
           get_prop func (asc ''arguments'') = Inr (Some a))"
  by (auto simp: call_arguments_def split: sum.splits option.splits)

lemma normalize_call_result_string:
  assumes "normalize_call rt tc = Inr tc'" and "truthy (call_arguments tc')"
  shows "\<exists>s. call_arguments tc' = Some (JString s)"
proof -
  from assms(2) obtain a' where a': "call_arguments tc' = Some a'" and t: "truthy (Some a')"
    by (cases "call_arguments tc'") auto
  from a' obtain func' where "get_prop tc' (asc ''function'') = Inr (Some func')"
    and "get_prop func' (asc ''arguments'') = Inr (Some a')"
    unfolding call_arguments_Some by blast
  from normalize_call_strings [OF assms(1) this t] have "is_string a'" .
  then obtain s where "a' = JString s" by (cases a') auto
  with a' show ?thesis by simp
qed

lemma normalize_call_encodes:
  assumes "normalize_call rt tc = Inr tc'"
      and "call_arguments tc = Some a" and "truthy (Some a)" and "\<not> is_string a"
  shows "call_arguments tc' = Some (JString (JSON_stringify rt a))"
proof -
  from assms(2) obtain func where f: "get_prop tc (asc ''function'') = Inr (Some func)"
    and a: "get_prop func (asc ''arguments'') = Inr (Some a)"
    unfolding call_arguments_Some by blast
  from f obtain kvs where tc: "tc = JObject kvs" and mf: "map_of kvs (asc ''function'') = Some func"
    by (auto dest: get_prop_Some_object)
  from a obtain fkvs where func: "func = JObject fkvs" and ma: "map_of fkvs (asc ''arguments'') = Some a"
    by (auto dest: get_prop_Some_object)
  from assms(1,3,4) have
    "tc' = JObject (obj_set kvs (asc ''function'')
             (JObject (obj_set fkvs (asc ''arguments'') (JString (JSON_stringify rt a)))))"
    by (auto simp: normalize_call_def tc mf func ma split: if_splits)
  then show ?thesis
    by (simp add: call_arguments_def map_of_obj_set)
qed

lemma normalize_calls_all2:
  "normalize_calls rt tcs = Inr res \<Longrightarrow>
   list_all2 (\<lambda>tc tc'. normalize_call rt tc = Inr tc') tcs res"
proof (induction tcs arbitrary: res)
  case Nil
  then show ?case by simp
next
  case (Cons tc tcs)
  then show ?case
    by (auto split: sum.splits)
qed

lemma try_tool_calls_Some:
  assumes "try_tool_calls rt jsonStr = Some res"
  shows "\<exists>parsedData original.
           JSON_parse rt jsonStr = Some parsedData \<and>
           get_prop parsedData (asc ''tool_calls'') = Inr (Some (JArray original)) \<and>
           list_all2 (\<lambda>tc tc'. normalize_call rt tc = Inr tc') original res"
  using assms
  by (auto simp: try_tool_calls_def split: option.splits sum.splits json.splits
      dest: normalize_calls_all2)

lemma attempt_fenced_Some:
  "attempt_fenced rt gs = Some res \<Longrightarrow> \<exists>g \<in> set gs. try_tool_calls rt g = Some res"
  by (induction gs) (auto split: option.splits)

lemma attempt_inline_Some:
  "attempt_inline rt s = Some res \<Longrightarrow> \<exists>jsonStr. try_tool_calls rt jsonStr = Some res"
  by (induction s) (auto split: option.splits if_splits)

lemma attempt_natural_Some:
  assumes "attempt_natural rt now s = Inr (Some res)"
  shows "\<exists>ident functionName argumentsStr.
           res = [JObject [(asc ''id'', JString ident), (asc ''type'', JString (asc ''function'')),
                           (asc ''function'',
                            JObject [(asc ''name'', JString functionName),
                                     (asc ''arguments'', JString argumentsStr)])]]"
  using assms
  by (auto simp: attempt_natural_def Let_def split: list.splits option.splits)

lemma extract_cases:
  assumes "extractToolInvocations rt cfg now text = Inr (Some toolCalls)"
  shows "(\<exists>jsonStr. try_tool_calls rt jsonStr = Some toolCalls) \<or>
         attempt_natural rt now (substring0 (SCAN_LIMIT cfg) text) = Inr (Some toolCalls)"
  using assms
  by (auto simp: extractToolInvocations_def Let_def split: if_splits option.splits
      dest: attempt_fenced_Some attempt_inline_Some)

lemma normalize_call_unchanged:
  assumes "normalize_call rt tc = Inr tc'"
      and "call_arguments tc = None \<or> (\<exists>s. call_arguments tc = Some (JString s))"
  shows "tc' = tc"
  using assms
  by (auto simp: normalize_call_def call_arguments_def
      split: sum.splits option.splits if_splits)

text \<open>
  C3, amended. In every list that \<open>extractToolInvocations\<close> returns, a tool call whose
  \<open>function.arguments\<close> is truthy has a string there. When the list comes from a parsed
  \<open>tool_calls\<close> array, an entry whose arguments were truthy and not a string (an object,
  an array, \<open>true\<close>, a number other than zero) carries their \<open>JSON.stringify\<close> encoding
  instead, and an entry without \<open>function.arguments\<close> or with a string there is returned
  as it was parsed.
\<close>

theorem extracted_arguments_normalized:
  assumes "extractToolInvocations rt cfg now text = Inr (Some toolCalls)"
  shows "(\<forall>tc \<in> set toolCalls.
            truthy (call_arguments tc) \<longrightarrow> (\<exists>s. call_arguments tc = Some (JString s))) \<and>
         (attempt_natural rt now (substring0 (SCAN_LIMIT cfg) text) = Inr (Some toolCalls) \<or>
          (\<exists>jsonStr parsedData original.
             JSON_parse rt jsonStr = Some parsedData \<and>
             get_prop parsedData (asc ''tool_calls'') = Inr (Some (JArray original)) \<and>
             list_all2
               (\<lambda>tc tc'.
                  (\<forall>a. call_arguments tc = Some a \<and> truthy (Some a) \<and> \<not> is_string a \<longrightarrow>
                       call_arguments tc' = Some (JString (JSON_stringify rt a))) \<and>
                  (call_arguments tc = None \<or> (\<exists>s. call_arguments tc = Some (JString s)) \<longrightarrow>
                       tc' = tc))
               original toolCalls))"
proof -
  from extract_cases [OF assms] show ?thesis
  proof
    assume "\<exists>jsonStr. try_tool_calls rt jsonStr = Some toolCalls"
    then obtain jsonStr where "try_tool_calls rt jsonStr = Some toolCalls" ..
    from try_tool_calls_Some [OF this] obtain parsedData original where
      p: "JSON_parse rt jsonStr = Some parsedData"
      and tcs: "get_prop parsedData (asc ''tool_calls'') = Inr (Some (JArray original))"
      and all2: "list_all2 (\<lambda>tc tc'. normalize_call rt tc = Inr tc') original toolCalls"
      by blast
    have strings: "\<forall>tc \<in> set toolCalls.
        truthy (call_arguments tc) \<longrightarrow> (\<exists>s. call_arguments tc = Some (JString s))"
    proof
      fix tc'
      assume "tc' \<in> set toolCalls"
      with all2 obtain tc where "normalize_call rt tc = Inr tc'"
        by (auto simp: list_all2_conv_all_nth in_set_conv_nth)
      then show "truthy (call_arguments tc') \<longrightarrow> (\<exists>s. call_arguments tc' = Some (JString s))"
        by (auto dest: normalize_call_result_string)
    qed
    from all2 have "list_all2
        (\<lambda>tc tc'.
           (\<forall>a. call_arguments tc = Some a \<and> truthy (Some a) \<and> \<not> is_string a \<longrightarrow>
                call_arguments tc' = Some (JString (JSON_stringify rt a))) \<and>
           (call_arguments tc = None \<or> (\<exists>s. call_arguments tc = Some (JString s)) \<longrightarrow>
                tc' = tc))
        original toolCalls"
    proof (rule list_all2_mono)
      fix tc tc'
      assume n: "normalize_call rt tc = Inr tc'"
      show "(\<forall>a. call_arguments tc = Some a \<and> truthy (Some a) \<and> \<not> is_string a \<longrightarrow>
                call_arguments tc' = Some (JString (JSON_stringify rt a))) \<and>
           (call_arguments tc = None \<or> (\<exists>s. call_arguments tc = Some (JString s)) \<longrightarrow>
                tc' = tc)"
        using normalize_call_encodes [OF n] normalize_call_unchanged [OF n] by blast
    qed
    with p tcs strings show ?thesis by blast
  next
    assume n: "attempt_natural rt now (substring0 (SCAN_LIMIT cfg) text) = Inr (Some toolCalls)"
    from attempt_natural_Some [OF this] obtain ident functionName argumentsStr where
      "toolCalls = [JObject [(asc ''id'', JString ident), (asc ''type'', JString (asc ''function'')),
                           (asc ''function'',
                            JObject [(asc ''name'', JString functionName),
                                     (asc ''arguments'', JString argumentsStr)])]]"
      by blast
    then have "\<forall>tc \<in> set toolCalls.
        truthy (call_arguments tc) \<longrightarrow> (\<exists>s. call_arguments tc = Some (JString s))"
      by (simp add: call_arguments_def asc_def)
    with n show ?thesis by blast
  qed
qed

theorem extracted_arguments_normalized_witness:
  "extractToolInvocations deno example_config 1700000000000 fenced_call_text
     = Inr (Some [JObject [(asc ''function'',
                            JObject [(asc ''name'', JString (asc ''f'')),
                                     (asc ''arguments'', JString (asc ''{\"a\":1}''))])]]) \<and>
   truthy (call_arguments (JObject [(asc ''function'',
                            JObject [(asc ''name'', JString (asc ''f'')),
                                     (asc ''arguments'', JString (asc ''{\"a\":1}''))])])) \<and>
   (\<exists>s. call_arguments (JObject [(asc ''function'',
                            JObject [(asc ''name'', JString (asc ''f'')),
                                     (asc ''arguments'', JString (asc ''{\"a\":1}''))])])
          = Some (JString s))"
proof -
  let ?tc = "JObject [(asc ''function'',
                       JObject [(asc ''name'', JString (asc ''f'')),
                                (asc ''arguments'', JString (asc ''{\"a\":1}''))])]"
  have h: "extractToolInvocations deno example_config 1700000000000 fenced_call_text
             = Inr (Some [?tc])"
    by code_simp
  have t: "truthy (call_arguments ?tc)"
    by code_simp
  from extracted_arguments_normalized [OF h] have
    "\<forall>tc \<in> set [?tc]. truthy (call_arguments tc) \<longrightarrow> (\<exists>s. call_arguments tc = Some (JString s))"
    by (rule conjunct1)
  with t have "\<exists>s. call_arguments ?tc = Some (JString s)"
    by simp
  with h t show ?thesis by blast
qed

text \<open>
  C3 as stated fails: a tool call whose \<open>function\<close> has no \<open>arguments\<close> is returned as it
  was parsed, without an \<open>arguments\<close> field.
\<close>

theorem call_without_arguments_returned:
  "extractToolInvocations deno example_config 1700000000000 bare_call_text
     = Inr (Some [JObject [(asc ''id'', JString (asc ''call_1'')),
                           (asc ''type'', JString (asc ''function'')),
                           (asc ''function'', JObject [(asc ''name'', JString (asc ''get_time''))])]]) \<and>
   get_prop (JObject [(asc ''name'', JString (asc ''get_time''))]) (asc ''arguments'') = Inr None"
  by code_simp

lemma brace_end_append:
  "brace_end d i e xs = Some n \<Longrightarrow> brace_end d i e (xs @ ys) = Some n"
proof (induction d i e xs arbitrary: n rule: brace_end.induct)
  case (1 braceCount inString escapeNext)
  then show ?case by (cases ys) (auto split: if_splits)
next
  case (2 braceCount inString escapeNext c cs)
  show ?case
  proof (cases "braceCount > 0")
    case False
    with "2.prems" show ?thesis by (auto split: if_splits)
  next
    case True
    with "2.prems" obtain m where n: "n = Suc m" and
      m: "(if escapeNext then brace_end braceCount inString False cs
         else if c = 92 then brace_end braceCount inString True cs
         else if c = 34 then brace_end braceCount (\<not> inString) False cs
         else if \<not> inString then
           (if c = 123 then brace_end (braceCount + 1) inString False cs
            else if c = 125 then brace_end (braceCount - 1) inString False cs
            else brace_end braceCount inString False cs)
         else brace_end braceCount inString False cs) = Some m"
      by auto
    from True m "2.IH" [of m] have
      "(if escapeNext then brace_end braceCount inString False (cs @ ys)
         else if c = 92 then brace_end braceCount inString True (cs @ ys)
         else if c = 34 then brace_end braceCount (\<not> inString) False (cs @ ys)
         else if \<not> inString then
           (if c = 123 then brace_end (braceCount + 1) inString False (cs @ ys)
            else if c = 125 then brace_end (braceCount - 1) inString False (cs @ ys)
            else brace_end braceCount inString False (cs @ ys))
         else brace_end braceCount inString False (cs @ ys)) = Some m"
      by (auto split: if_splits)
    with True show ?thesis by (simp add: n)
  qed
qed

lemma fence_close_pos: "fence_close s = Some (k, e) \<Longrightarrow> 0 < e"
  by (induction s arbitrary: k e) (auto split: if_splits)

lemma fence_match_at_pos: "fence_match_at s = Some (g, n) \<Longrightarrow> 0 < n"
  by (auto simp: fence_match_at_def Let_def split: if_splits list.splits option.splits)

lemma remove_fenced_id:
  "\<forall>g \<in> set (fence_matchAll s). \<not> has_tool_calls rt g \<Longrightarrow> remove_fenced rt s = s"
proof (induction s rule: fence_matchAll.induct)
  case 1
  show ?case by simp
next
  case (2 c cs)
  show ?case
  proof (cases "fence_match_at (c # cs)")
    case None
    with 2 show ?thesis by simp
  next
    case (Some gn)
    obtain g n where gn: "gn = (g, n)" by (cases gn)
    from Some gn have pos: "0 < n" by (auto dest: fence_match_at_pos)
    from "2.prems" Some gn have "\<not> has_tool_calls rt g"
      and rest: "\<forall>g \<in> set (fence_matchAll (drop (n - 1) cs)). \<not> has_tool_calls rt g"
      by auto
    moreover from "2.IH"(2) [OF Some gn [symmetric] rest] have "remove_fenced rt (drop (n - 1) cs) = drop (n - 1) cs" .
    ultimately show ?thesis using Some gn pos
      by (cases n) auto
  qed
qed

lemma remove_fenced_harmless:
  "harmless_fences rt pre rest \<Longrightarrow> remove_fenced rt (pre @ rest) = pre @ remove_fenced rt rest"
proof (induction rt pre rest rule: harmless_fences.induct)
  case (1 rt rest)
  show ?case by simp
next
  case (2 rt c cs rest)
  show ?case
  proof (cases "fence_match_at (c # cs @ rest)")
    case None
    with 2 show ?thesis by simp
  next
    case (Some gn)
    obtain g n where gn: "gn = (g, n)" by (cases gn)
    from Some gn have pos: "0 < n" by (auto dest: fence_match_at_pos)
    from "2.prems" Some gn have nt: "\<not> has_tool_calls rt g" and le: "n \<le> length (c # cs)"
      and h: "harmless_fences rt (drop (n - 1) cs) rest"
      by auto
    from "2.IH"(2) [OF Some gn [symmetric] h]
    have ih: "remove_fenced rt (drop (n - 1) cs @ rest) = drop (n - 1) cs @ remove_fenced rt rest" .
    from pos le have d: "drop (n - 1) (cs @ rest) = drop (n - 1) cs @ rest"
      by (cases n) auto
    from pos le have t: "take n (c # cs @ rest) = take n (c # cs)"
      by (cases n) auto
    have "take n (c # cs) @ drop (n - 1) cs = c # cs"
      using pos by (cases n) auto
    then have "take n (c # cs) @ drop (n - 1) cs @ remove_fenced rt rest
        = (c # cs) @ remove_fenced rt rest"
      by (metis append_assoc)
    with Some gn nt ih d t show ?thesis
      by simp
  qed
qed

lemma remove_fenced_block:
  assumes "fence_match_at (block @ post) = Some (obj, length block)" and "has_tool_calls rt obj"
  shows "remove_fenced rt (block @ post) = remove_fenced rt post"
proof (cases block)
  case Nil
  with assms(1) show ?thesis by (auto dest: fence_match_at_pos)
next
  case (Cons c cs)
  with assms show ?thesis by simp
qed

lemma remove_inline_prefix:
  "no_tool_start rt pre rest \<Longrightarrow> remove_inline rt (pre @ rest) = pre @ remove_inline rt rest"
  by (induction pre) (auto split: option.splits)

lemma remove_inline_object:
  assumes "has_tool_calls rt (123 # body)" and "brace_end 1 False False body = Some (length body)"
  shows "remove_inline rt ((123 # body) @ post) = remove_inline rt post"
proof -
  from assms(2) have "brace_end 1 False False (body @ post) = Some (length body)"
    by (rule brace_end_append)
  with assms(1) show ?thesis by simp
qed

text \<open>
  C5. Let \<open>obj\<close> be a text that parses to an object with the property \<open>tool_calls\<close>, and
  let \<open>block\<close> be either \<open>obj\<close> itself, closed by the brace scan exactly at its end, or a
  fenced block that the fence pattern matches with \<open>obj\<close> as its group. If nothing else
  in \<open>pre @ block @ post\<close> is found to carry tool calls (no other fenced block, and no
  balanced candidate starting in the surrounding text; in the fenced case the fence
  matches met in \<open>pre\<close> end within \<open>pre\<close>), then \<open>removeToolJsonContent\<close> returns
  \<open>pre @ post\<close> trimmed: the block is removed and everything else, JSON without
  \<open>tool_calls\<close> included, is kept.
\<close>

theorem removeToolJsonContent_single_object:
  assumes "has_tool_calls rt obj"
      and "(block = obj \<and> obj = 123 # body \<and> brace_end 1 False False body = Some (length body) \<and>
            (\<forall>g \<in> set (fence_matchAll (pre @ obj @ post)). \<not> has_tool_calls rt g) \<and>
            no_tool_start rt pre (obj @ post) \<and> no_tool_start rt post []) \<or>
           (fence_match_at (block @ post) = Some (obj, length block) \<and>
            harmless_fences rt pre (block @ post) \<and>
            (\<forall>g \<in> set (fence_matchAll post). \<not> has_tool_calls rt g) \<and>
            no_tool_start rt (pre @ post) [])"
  shows "removeToolJsonContent rt (pre @ block @ post) = trim (pre @ post)"
  using assms(2)
proof
  assume inline: "block = obj \<and> obj = 123 # body \<and> brace_end 1 False False body = Some (length body) \<and>
            (\<forall>g \<in> set (fence_matchAll (pre @ obj @ post)). \<not> has_tool_calls rt g) \<and>
            no_tool_start rt pre (obj @ post) \<and> no_tool_start rt post []"
  then have block: "block = obj" and obj: "obj = 123 # body"
    and closed: "brace_end 1 False False body = Some (length body)"
    and fences: "\<forall>g \<in> set (fence_matchAll (pre @ obj @ post)). \<not> has_tool_calls rt g"
    and before: "no_tool_start rt pre (obj @ post)" and after: "no_tool_start rt post []"
    by blast+
  from fences have "remove_fenced rt (pre @ obj @ post) = pre @ obj @ post"
    by (rule remove_fenced_id)
  also from before have "remove_inline rt (pre @ obj @ post) = pre @ remove_inline rt (obj @ post)"
    by (rule remove_inline_prefix)
  also from assms(1) closed have "remove_inline rt (obj @ post) = remove_inline rt post"
    unfolding obj by (rule remove_inline_object)
  also from after have "remove_inline rt post = post"
    using remove_inline_prefix [of rt post "[]"] by simp
  finally have "remove_inline rt (remove_fenced rt (pre @ obj @ post)) = pre @ post" .
  then show ?thesis
    by (simp only: removeToolJsonContent_def block)
next
  assume fenced: "fence_match_at (block @ post) = Some (obj, length block) \<and>
            harmless_fences rt pre (block @ post) \<and>
            (\<forall>g \<in> set (fence_matchAll post). \<not> has_tool_calls rt g) \<and>
            no_tool_start rt (pre @ post) []"
  then have "remove_fenced rt (pre @ block @ post) = pre @ remove_fenced rt (block @ post)"
    by (simp add: remove_fenced_harmless)
  moreover from fenced assms(1) have "remove_fenced rt (block @ post) = remove_fenced rt post"
    by (simp add: remove_fenced_block)
  moreover from fenced have "remove_fenced rt post = post"
    by (simp add: remove_fenced_id)
  moreover from fenced have "remove_inline rt (pre @ post) = pre @ post"
    using remove_inline_prefix [of rt "pre @ post" "[]"] by simp
  ultimately show ?thesis
    by (simp add: removeToolJsonContent_def)
qed

theorem removeToolJsonContent_single_object_witness:
  "has_tool_calls deno tool_object \<and>
   \<not> has_tool_calls deno (asc ''{\"a\":1}'') \<and>
   removeToolJsonContent deno (asc ''See {\"a\":1} and '' @ tool_object @ asc '' done. '')
     = asc ''See {\"a\":1} and  done.'' \<and>
   removeToolJsonContent deno
       (asc ''Data:\<newline>```json\<newline>{\"a\":1}\<newline>```\<newline>''
        @ (asc ''```json\<newline>'' @ tool_object @ asc ''\<newline>```'')
        @ asc ''\<newline>Done.\<newline>'')
     = asc ''Data:\<newline>```json\<newline>{\"a\":1}\<newline>```\<newline>\<newline>Done.''"
proof -
  let ?pre1 = "asc ''See {\"a\":1} and ''" and ?post1 = "asc '' done. ''"
  let ?pre2 = "asc ''Data:\<newline>```json\<newline>{\"a\":1}\<newline>```\<newline>''"
    and ?post2 = "asc ''\<newline>Done.\<newline>''"
  let ?block = "asc ''```json\<newline>'' @ tool_object @ asc ''\<newline>```''"
  have tool: "has_tool_calls deno tool_object"
    by code_simp
  have other: "\<not> has_tool_calls deno (asc ''{\"a\":1}'')"
    by code_simp
  have inline: "tool_object = tool_object \<and> tool_object = 123 # tl tool_object \<and>
      brace_end 1 False False (tl tool_object) = Some (length (tl tool_object)) \<and>
      (\<forall>g \<in> set (fence_matchAll (?pre1 @ tool_object @ ?post1)). \<not> has_tool_calls deno g) \<and>
      no_tool_start deno ?pre1 (tool_object @ ?post1) \<and> no_tool_start deno ?post1 []"
    by code_simp
  have fenced: "fence_match_at (?block @ ?post2) = Some (tool_object, length ?block) \<and>
      harmless_fences deno ?pre2 (?block @ ?post2) \<and>
      (\<forall>g \<in> set (fence_matchAll ?post2). \<not> has_tool_calls deno g) \<and>
      no_tool_start deno (?pre2 @ ?post2) []"
    by code_simp
  have t1: "trim (?pre1 @ ?post1) = asc ''See {\"a\":1} and  done.''"
    by code_simp
  have t2: "trim (?pre2 @ ?post2)
      = asc ''Data:\<newline>```json\<newline>{\"a\":1}\<newline>```\<newline>\<newline>Done.''"
    by code_simp
  from removeToolJsonContent_single_object [of deno tool_object tool_object "tl tool_object"
      ?pre1 ?post1, OF tool] inline
  have r1: "removeToolJsonContent deno (?pre1 @ tool_object @ ?post1) = trim (?pre1 @ ?post1)"
    by blast
  from removeToolJsonContent_single_object [of deno tool_object ?block "tl tool_object"
      ?pre2 ?post2, OF tool] fenced
  have r2: "removeToolJsonContent deno (?pre2 @ ?block @ ?post2) = trim (?pre2 @ ?post2)"
    by blast
  from tool other r1 r2 show ?thesis
    by (simp only: t1 t2 simp_thms)
qed

end
